theory Spec2Isabelle
  imports Complex_Main
begin

section \<open>JavaScript values reaching the client\<close>

text \<open>
  The values that flow through \<open>services/api.js\<close> and \<open>Dashboard.jsx\<close>: results of
  \<open>JSON.parse\<close> on inbound frames, arguments of \<open>send\<close> and the argument a listener
  receives. A number is kept by its mathematical value; \<open>NaN\<close> and the two infinities are
  separate constructors. An object is the list of its own properties, each key once.
\<close>

datatype jsnumber = NaN | PosInfinity | NegInfinity | Finite rat

datatype jsval =
    JUndefined
  | JNull
  | JBool bool
  | JNumber jsnumber
  | JBigInt int
  | JString string
  | JArray "jsval list"
  | JObject "(string \<times> jsval) list"

datatype js_error = SyntaxError | TypeError | Thrown string

text \<open>
  A piece of code that may throw ends in a completion: it returned, or it threw; either
  way the mutations made so far stay.
\<close>

datatype 'a completion = Normal 'a | Throw js_error 'a

fun state_of :: "'a completion \<Rightarrow> 'a" where
  "state_of (Normal s) = s"
| "state_of (Throw e s) = s"

fun threw :: "'a completion \<Rightarrow> bool" where
  "threw (Normal s) = False"
| "threw (Throw e s) = True"

text \<open>
  \<open>ToBoolean\<close>, the test of \<open>if (data.data)\<close>: \<open>undefined\<close>, \<open>null\<close>, \<open>false\<close>,
  \<open>0\<close>, \<open>NaN\<close>, \<open>0n\<close> and the empty string are falsy, every object and array is truthy.
\<close>

fun ToBoolean :: "jsval \<Rightarrow> bool" where
  "ToBoolean JUndefined = False"
| "ToBoolean JNull = False"
| "ToBoolean (JBool b) = b"
| "ToBoolean (JNumber NaN) = False"
| "ToBoolean (JNumber (Finite q)) = (q \<noteq> 0)"
| "ToBoolean (JNumber n) = True"
| "ToBoolean (JBigInt i) = (i \<noteq> 0)"
| "ToBoolean (JString s) = (s \<noteq> [])"
| "ToBoolean (JArray xs) = True"
| "ToBoolean (JObject kvs) = True"

text \<open>
  The property read \<open>data.data\<close>: a \<open>TypeError\<close> on \<open>undefined\<close> and \<open>null\<close>, the own
  property \<open>data\<close> of an object, and \<open>undefined\<close> where there is none (no prototype of a
  parsed value has a property of that name).
\<close>

fun get_data :: "jsval \<Rightarrow> js_error + jsval" where
  "get_data JUndefined = Inl TypeError"
| "get_data JNull = Inl TypeError"
| "get_data (JObject kvs) = (case map_of kvs ''data'' of None \<Rightarrow> Inr JUndefined | Some v \<Rightarrow> Inr v)"
| "get_data v = Inr JUndefined"

text \<open>\<open>"data" in data\<close> for a parsed message: whether it carries a data field at all.\<close>

fun has_data_field :: "jsval \<Rightarrow> bool" where
  "has_data_field (JObject kvs) = (map_of kvs ''data'' \<noteq> None)"
| "has_data_field v = False"


section \<open>Dashboard: the state the listeners act on\<close>

text \<open>
  \<open>Dashboard.jsx\<close> holds two pieces of state, \<open>liveEvents\<close> (initially \<open>[]\<close>) and
  \<open>wsConnected\<close> (initially \<open>false\<close>), and registers three listeners on the events
  socket. A state setter is explicit state passing.
\<close>

record Dashboard =
  liveEvents :: "jsval list"
  wsConnected :: bool

definition Dashboard_init :: Dashboard where
  "Dashboard_init = \<lparr>liveEvents = [], wsConnected = False\<rparr>"

type_synonym 'u callback = "jsval \<Rightarrow> 'u \<Rightarrow> 'u completion"

text \<open>\<open>ws.on('open', () => { setWsConnected(true); })\<close>\<close>

definition on_open :: "Dashboard callback" where
  "on_open d st = Normal (st\<lparr>wsConnected := True\<rparr>)"

text \<open>
  \<open>ws.on('message', (data) => { if (data.data) { setLiveEvents((prev) =>
  [data.data, ...prev].slice(0, 100)); } })\<close>
\<close>

definition on_message :: "Dashboard callback" where
  "on_message d st =
     (case get_data d of
        Inl e \<Rightarrow> Throw e st
      | Inr v \<Rightarrow>
          if ToBoolean v
          then Normal (st\<lparr>liveEvents := take 100 (v # liveEvents st)\<rparr>)
          else Normal st)"

text \<open>\<open>ws.on('close', () => { setWsConnected(false); })\<close>\<close>

definition on_close :: "Dashboard callback" where
  "on_close d st = Normal (st\<lparr>wsConnected := False\<rparr>)"


section \<open>WebSocketClient\<close>

text \<open>
  The browser's \<open>WebSocket\<close> objects live in a store (\<open>sockets\<close>); \<open>this.ws\<close> is a
  reference into it or \<open>null\<close>. A socket records the url it was opened with, its
  \<open>readyState\<close> and the frames handed to its \<open>send\<close>.
\<close>

datatype readyState = CONNECTING | OPEN | CLOSING | CLOSED

text \<open>
  What \<open>this.ws.send(JSON.stringify(data))\<close> transmits. The text itself is not spelled
  out: \<open>JSONText v\<close> is the JSON text of \<open>v\<close>, and \<open>UndefinedText\<close> is the string
  \<open>"undefined"\<close> that \<open>send\<close> makes of the \<open>undefined\<close> which \<open>JSON.stringify(undefined)\<close>
  returns.
\<close>

datatype frame = JSONText jsval | UndefinedText

record WebSocket =
  url :: string
  readyState :: readyState
  sent :: "frame list"

datatype console_line =
    LogConnected string
  | ErrorParse
  | ErrorWebSocket
  | LogClosed string
  | LogReconnecting nat nat nat
  | ErrorMaxAttempts
  | WarnNotReady jsval

record 'u WebSocketClient =
  endpoint :: string
  ws :: "nat option"
  listeners :: "string \<rightharpoonup> 'u callback list"
  reconnectAttempts :: nat
  maxReconnectAttempts :: nat
  reconnectDelay :: nat

text \<open>
  The client together with what its methods reach: the build-time variable behind
  \<open>WS_BASE_URL\<close>, the socket store, the delays of the pending \<open>setTimeout\<close> callbacks
  (each of them runs \<open>this.connect()\<close>), the console, the state the listeners act on,
  and a record of the listener calls made (the event name of each).

  A listener is a function on that state which returns or throws; it does not call back
  into the client, as the Dashboard's three listeners do not. \<open>off\<close> finds a callback by
  identity, which a function of HOL does not have, and is left out.
\<close>

record 'u world =
  client :: "'u WebSocketClient"
  VITE_WS_URL :: "string option"
  sockets :: "WebSocket list"
  timers :: "nat list"
  console :: "console_line list"
  invoked :: "string list"
  user :: 'u

text \<open>\<open>const WS_BASE_URL = import.meta.env.VITE_WS_URL || 'ws://localhost:8000'\<close>\<close>

definition WS_BASE_URL :: "string option \<Rightarrow> string" where
  "WS_BASE_URL env =
     (case env of
        None \<Rightarrow> ''ws://localhost:8000''
      | Some s \<Rightarrow> if s = [] then ''ws://localhost:8000'' else s)"

definition constructor :: "string \<Rightarrow> 'u WebSocketClient" where
  "constructor ep =
     \<lparr>endpoint = ep, ws = None, listeners = Map.empty, reconnectAttempts = 0,
      maxReconnectAttempts = 5, reconnectDelay = 1000\<rparr>"

text \<open>
  \<open>createEventsWebSocket = () => new WebSocketClient('/ws/events')\<close> and
  \<open>createSensorWebSocket = (sensorId) => new WebSocketClient(`/ws/sensors/${sensorId}`)\<close>
\<close>

definition createEventsWebSocket :: "unit \<Rightarrow> 'u WebSocketClient" where
  "createEventsWebSocket x = constructor ''/ws/events''"

definition createSensorWebSocket :: "string \<Rightarrow> 'u WebSocketClient" where
  "createSensorWebSocket sensorId = constructor (''/ws/sensors/'' @ sensorId)"

text \<open>A page that has just built a client: no socket, no timer, nothing logged.\<close>

definition new_world :: "string option \<Rightarrow> 'u WebSocketClient \<Rightarrow> 'u \<Rightarrow> 'u world" where
  "new_world env c u =
     \<lparr>client = c, VITE_WS_URL = env, sockets = [], timers = [], console = [],
      invoked = [], user = u\<rparr>"

definition print :: "console_line \<Rightarrow> 'u world \<Rightarrow> 'u world" where
  "print l w = w\<lparr>console := console w @ [l]\<rparr>"

text \<open>
  \<open>connect\<close>: a new socket for \<open>WS_BASE_URL + this.endpoint\<close>, in state \<open>CONNECTING\<close>,
  becomes \<open>this.ws\<close>. The four handlers it installs are the functions \<open>onopen\<close>,
  \<open>onmessage\<close>, \<open>onerror\<close> and \<open>onclose\<close> below; they mention \<open>this\<close> only, so every
  socket the client ever made carries the same four.
\<close>

definition connect :: "'u world \<Rightarrow> 'u world" where
  "connect w =
     w\<lparr>sockets := sockets w @
          [\<lparr>url = WS_BASE_URL (VITE_WS_URL w) @ endpoint (client w),
            readyState = CONNECTING, sent = []\<rparr>],
       client := (client w)\<lparr>ws := Some (length (sockets w))\<rparr>\<rparr>"

text \<open>\<open>on\<close>: the callback is pushed at the end of the event's list.\<close>

definition on :: "string \<Rightarrow> 'u callback \<Rightarrow> 'u world \<Rightarrow> 'u world" where
  "on ev cb w =
     w\<lparr>client := (client w)\<lparr>listeners :=
          (listeners (client w))(ev \<mapsto>
            (case listeners (client w) ev of None \<Rightarrow> [cb] | Some cbs \<Rightarrow> cbs @ [cb]))\<rparr>\<rparr>"

text \<open>
  \<open>emit\<close>: \<open>callbacks.forEach((callback) => callback(data))\<close>. The first callback that
  throws ends the loop and the exception leaves \<open>emit\<close>.
\<close>

fun forEach :: "'u callback list \<Rightarrow> string \<Rightarrow> jsval \<Rightarrow> 'u world \<Rightarrow> 'u world completion" where
  "forEach [] ev d w = Normal w"
| "forEach (cb # cbs) ev d w =
     (case cb d (user w) of
        Normal u \<Rightarrow> forEach cbs ev d (w\<lparr>invoked := invoked w @ [ev], user := u\<rparr>)
      | Throw e u \<Rightarrow> Throw e (w\<lparr>invoked := invoked w @ [ev], user := u\<rparr>))"

definition emit :: "string \<Rightarrow> jsval \<Rightarrow> 'u world \<Rightarrow> 'u world completion" where
  "emit ev d w =
     (case listeners (client w) ev of
        None \<Rightarrow> Normal w
      | Some cbs \<Rightarrow> forEach cbs ev d w)"

text \<open>
  \<open>attemptReconnect\<close>: below the cap the counter is incremented, the delay is
  \<open>reconnectDelay * reconnectAttempts\<close> with the new count, and a timer is set.
\<close>

definition attemptReconnect :: "'u world \<Rightarrow> 'u world" where
  "attemptReconnect w =
     (if reconnectAttempts (client w) < maxReconnectAttempts (client w)
      then
        let n = reconnectAttempts (client w) + 1;
            w1 = w\<lparr>client := (client w)\<lparr>reconnectAttempts := n\<rparr>\<rparr>;
            delay = reconnectDelay (client w1) * reconnectAttempts (client w1);
            w2 = print (LogReconnecting delay (reconnectAttempts (client w1))
                          (maxReconnectAttempts (client w1))) w1
        in w2\<lparr>timers := timers w2 @ [delay]\<rparr>
      else print ErrorMaxAttempts w)"

definition onopen :: "'u world \<Rightarrow> 'u world completion" where
  "onopen w =
     (let w1 = print (LogConnected (endpoint (client w))) w;
          w2 = w1\<lparr>client := (client w1)\<lparr>reconnectAttempts := 0\<rparr>\<rparr>
      in emit ''open'' JUndefined w2)"

text \<open>
  \<open>onmessage\<close>: \<open>JSON.parse\<close> is the runtime's; it is a parameter, \<open>None\<close> where it throws
  its \<open>SyntaxError\<close>. The \<open>try\<close> block holds the \<open>emit\<close> too, so an exception of a
  listener ends in the same \<open>catch\<close>.
\<close>

definition onmessage :: "(string \<Rightarrow> jsval option) \<Rightarrow> string \<Rightarrow> 'u world \<Rightarrow> 'u world completion" where
  "onmessage JSON_parse payload w =
     (case JSON_parse payload of
        None \<Rightarrow> Normal (print ErrorParse w)
      | Some d \<Rightarrow>
          (case emit ''message'' d w of
             Normal w' \<Rightarrow> Normal w'
           | Throw e w' \<Rightarrow> Normal (print ErrorParse w')))"

definition onerror :: "jsval \<Rightarrow> 'u world \<Rightarrow> 'u world completion" where
  "onerror err w = emit ''error'' err (print ErrorWebSocket w)"

definition onclose :: "'u world \<Rightarrow> 'u world completion" where
  "onclose w =
     (case emit ''close'' JUndefined (print (LogClosed (endpoint (client w))) w) of
        Normal w' \<Rightarrow> Normal (attemptReconnect w')
      | Throw e w' \<Rightarrow> Throw e w')"

text \<open>
  \<open>JSON.stringify\<close> throws a \<open>TypeError\<close> on a \<open>BigInt\<close>, at the top or anywhere inside
  an array or object, and returns \<open>undefined\<close> for \<open>undefined\<close>. (It also throws on a
  cyclic object; the values here are trees.)
\<close>

fun has_bigint :: "jsval \<Rightarrow> bool" where
  "has_bigint (JBigInt i) = True"
| "has_bigint (JArray xs) = list_ex has_bigint xs"
| "has_bigint (JObject kvs) = list_ex has_bigint (map snd kvs)"
| "has_bigint v = False"

definition JSON_stringify :: "jsval \<Rightarrow> js_error + frame" where
  "JSON_stringify v =
     (if has_bigint v then Inl TypeError
      else if v = JUndefined then Inr UndefinedText
      else Inr (JSONText v))"

text \<open>
  \<open>send\<close>: the guard is \<open>this.ws && this.ws.readyState === WebSocket.OPEN\<close>; the argument
  of \<open>this.ws.send\<close> is evaluated first, so an exception of \<open>JSON.stringify\<close> leaves
  \<open>send\<close> before anything is transmitted.
\<close>

definition send :: "jsval \<Rightarrow> 'u world \<Rightarrow> 'u world completion" where
  "send d w =
     (case ws (client w) of
        None \<Rightarrow> Normal (print (WarnNotReady d) w)
      | Some i \<Rightarrow>
          if readyState (sockets w ! i) = OPEN
          then (case JSON_stringify d of
                  Inl e \<Rightarrow> Throw e w
                | Inr f \<Rightarrow>
                    Normal (w\<lparr>sockets := (sockets w)[i := (sockets w ! i)\<lparr>sent := sent (sockets w ! i) @ [f]\<rparr>]\<rparr>))
          else Normal (print (WarnNotReady d) w))"

text \<open>
  \<open>disconnect\<close>: \<open>this.ws.close()\<close> starts the closing handshake of a socket that is
  not closed yet, then \<open>this.ws = null\<close>.
\<close>

definition ws_close :: "WebSocket \<Rightarrow> WebSocket" where
  "ws_close s = (if readyState s = CLOSED then s else s\<lparr>readyState := CLOSING\<rparr>)"

definition disconnect :: "'u world \<Rightarrow> 'u world" where
  "disconnect w =
     (case ws (client w) of
        None \<Rightarrow> w
      | Some i \<Rightarrow>
          w\<lparr>sockets := (sockets w)[i := ws_close (sockets w ! i)],
            client := (client w)\<lparr>ws := None\<rparr>\<rparr>)"


section \<open>The browser's side: events\<close>

text \<open>
  What can happen to a client once it exists: the browser fires an event on one of the
  sockets (after moving its \<open>readyState\<close>), a pending timer fires, or the page calls
  \<open>connect\<close>, \<open>send\<close> or \<open>disconnect\<close>. An exception that leaves a handler is reported
  by the browser and the page goes on, with the mutations made.
\<close>

datatype event =
    EvOpen nat
  | EvMessage nat string
  | EvError nat jsval
  | EvClose nat
  | EvTimeout nat
  | CallConnect
  | CallSend jsval
  | CallDisconnect

fun enabled :: "'u world \<Rightarrow> event \<Rightarrow> bool" where
  "enabled w (EvOpen i) = (i < length (sockets w) \<and> readyState (sockets w ! i) = CONNECTING)"
| "enabled w (EvMessage i p) = (i < length (sockets w) \<and> readyState (sockets w ! i) = OPEN)"
| "enabled w (EvError i err) = (i < length (sockets w) \<and> readyState (sockets w ! i) \<noteq> CLOSED)"
| "enabled w (EvClose i) = (i < length (sockets w) \<and> readyState (sockets w ! i) \<noteq> CLOSED)"
| "enabled w (EvTimeout k) = (k < length (timers w))"
| "enabled w CallConnect = True"
| "enabled w (CallSend d) = True"
| "enabled w CallDisconnect = True"

definition set_readyState :: "nat \<Rightarrow> readyState \<Rightarrow> 'u world \<Rightarrow> 'u world" where
  "set_readyState i r w = w\<lparr>sockets := (sockets w)[i := (sockets w ! i)\<lparr>readyState := r\<rparr>]\<rparr>"

fun fire :: "(string \<Rightarrow> jsval option) \<Rightarrow> 'u world \<Rightarrow> event \<Rightarrow> 'u world" where
  "fire P w (EvOpen i) = state_of (onopen (set_readyState i OPEN w))"
| "fire P w (EvMessage i p) = state_of (onmessage P p w)"
| "fire P w (EvError i err) = state_of (onerror err w)"
| "fire P w (EvClose i) = state_of (onclose (set_readyState i CLOSED w))"
| "fire P w (EvTimeout k) = connect (w\<lparr>timers := take k (timers w) @ drop (Suc k) (timers w)\<rparr>)"
| "fire P w CallConnect = connect w"
| "fire P w (CallSend d) = state_of (send d w)"
| "fire P w CallDisconnect = disconnect w"

definition step :: "(string \<Rightarrow> jsval option) \<Rightarrow> 'u world \<Rightarrow> event \<Rightarrow> 'u world" where
  "step P w e = (if enabled w e then fire P w e else w)"

definition run :: "(string \<Rightarrow> jsval option) \<Rightarrow> event list \<Rightarrow> 'u world \<Rightarrow> 'u world" where
  "run P es w = foldl (step P) w es"

text \<open>
  One failed reconnect attempt: the first pending timer fires and calls \<open>connect\<close>; the
  connection it starts fails, so the browser fires \<open>error\<close> and then \<open>close\<close> on the new
  socket.
\<close>

definition fail_attempt :: "(string \<Rightarrow> jsval option) \<Rightarrow> jsval \<Rightarrow> 'u world \<Rightarrow> 'u world" where
  "fail_attempt P err w =
     (let w1 = step P w (EvTimeout 0)
      in case ws (client w1) of
           None \<Rightarrow> w1
         | Some j \<Rightarrow> step P (step P w1 (EvError j err)) (EvClose j))"

text \<open>
  Every reconnect attempt fails, for as long as a timer is pending. The result is
  \<open>None\<close> when the fuel is used up with a timer still pending.
\<close>

fun run_failing :: "(string \<Rightarrow> jsval option) \<Rightarrow> jsval \<Rightarrow> nat \<Rightarrow> 'u world \<Rightarrow> 'u world option" where
  "run_failing P err 0 w = (if timers w = [] then Some w else None)"
| "run_failing P err (Suc n) w =
     (if timers w = [] then Some w else run_failing P err n (fail_attempt P err w))"

text \<open>No listener registered for \<open>close\<close> ever throws.\<close>

definition close_listeners_return :: "'u world \<Rightarrow> bool" where
  "close_listeners_return w =
     (case listeners (client w) ''close'' of
        None \<Rightarrow> True
      | Some cbs \<Rightarrow> \<forall>cb \<in> set cbs. \<forall>d u. \<not> threw (cb d u))"

text \<open>
  The effect of \<open>Dashboard.jsx\<close>: \<open>const ws = createEventsWebSocket()\<close>, the three
  \<open>ws.on\<close> calls, \<open>ws.connect()\<close>.
\<close>

definition Dashboard_mount :: "string option \<Rightarrow> Dashboard world" where
  "Dashboard_mount env =
     connect (on ''close'' on_close (on ''message'' on_message (on ''open'' on_open
       (new_world env (createEventsWebSocket ()) Dashboard_init))))"

definition dashboard_listening :: "Dashboard world \<Rightarrow> bool" where
  "dashboard_listening w =
     (listeners (client w) ''open'' = Some [on_open] \<and>
      listeners (client w) ''message'' = Some [on_message] \<and>
      listeners (client w) ''close'' = Some [on_close] \<and>
      listeners (client w) ''error'' = None)"


section \<open>The gateway's envelope\<close>

text \<open>
  Modelled from the spec: the Connection Gateway's outbound serializer (the backend's
  \<open>websocket.py\<close>, which is not among the sources). "Message envelope (outbound):
  \<open>{ "data": <Event | SensorReading> }\<close>. No batching; one envelope per published record."
  An Event or SensorReading is an object.
\<close>

definition envelope :: "jsval \<Rightarrow> jsval" where
  "envelope r = JObject [(''data'', r)]"

fun is_object :: "jsval \<Rightarrow> bool" where
  "is_object (JObject kvs) = True"
| "is_object v = False"


section \<open>Anomaly scoring\<close>

text \<open>
  Modelled from the spec: \<open>detectAnomalies\<close> of the Analytics Engine (backend code, not
  among the sources). "computes mean and standard deviation of the sensor's RollingWindow
  values ...; for each reading, \<open>z = (value - mean) / sigma\<close> (\<open>sigma == 0\<close> gives \<open>z\<close>
  defined as 0, no anomaly); flags where \<open>|z| \<ge> threshold\<close> (default 3.0)."
  The standard deviation is the one of the window as a population; \<open>sample_std\<close> is
  the other convention, with \<open>n - 1\<close>.
\<close>

definition mean :: "real list \<Rightarrow> real" where
  "mean xs = sum_list xs / real (length xs)"

definition std :: "real list \<Rightarrow> real" where
  "std xs = sqrt (sum_list (map (\<lambda>x. (x - mean xs)\<^sup>2) xs) / real (length xs))"

definition sample_std :: "real list \<Rightarrow> real" where
  "sample_std xs = sqrt (sum_list (map (\<lambda>x. (x - mean xs)\<^sup>2) xs) / real (length xs - 1))"

definition z_score :: "(real list \<Rightarrow> real) \<Rightarrow> real list \<Rightarrow> real \<Rightarrow> real" where
  "z_score sd xs v = (if sd xs = 0 then 0 else (v - mean xs) / sd xs)"

definition default_threshold :: real where
  "default_threshold = 3"

definition flagged :: "(real list \<Rightarrow> real) \<Rightarrow> real \<Rightarrow> real list \<Rightarrow> real \<Rightarrow> bool" where
  "flagged sd threshold xs v = (\<bar>z_score sd xs v\<bar> \<ge> threshold)"

definition detectAnomalies :: "real list \<Rightarrow> (real \<times> real \<times> bool) list" where
  "detectAnomalies xs = map (\<lambda>v. (v, z_score std xs v, flagged std default_threshold xs v)) xs"


section \<open>Anomaly scoring on the window of the spec\<close>

lemma mean_window: "mean [10, 10, 10, 10, 100] = 28"
  by (simp add: mean_def)

lemma sqrt_1296: "sqrt 1296 = 36"
proof -
  have "sqrt ((36::real)\<^sup>2) = 36" by simp
  then show ?thesis by simp
qed

lemma std_window: "std [10, 10, 10, 10, 100] = 36"
  by (simp add: std_def mean_window sqrt_1296)

lemma z_score_100: "z_score std [10, 10, 10, 10, 100] 100 = 2"
  by (simp add: z_score_def std_window mean_window)

lemma z_score_10: "z_score std [10, 10, 10, 10, 100] 10 = - 1 / 2"
  by (simp add: z_score_def std_window mean_window)

text \<open>
  With the sample standard deviation the score of 100 is \<open>4 / sqrt 5\<close>, lower still: the
  outcome does not hang on the convention.
\<close>

lemma sample_std_window: "sample_std [10, 10, 10, 10, 100] = 18 * sqrt 5"
proof -
  have "sqrt 1620 = sqrt (18\<^sup>2 * 5)" by simp
  also have "\<dots> = 18 * sqrt 5" by (simp only: real_sqrt_mult real_sqrt_abs)
  finally show ?thesis by (simp add: sample_std_def mean_window)
qed

lemma sample_z_score_100: "\<bar>z_score sample_std [10, 10, 10, 10, 100] 100\<bar> < default_threshold"
proof -
  have "sqrt 5 > 2" by (rule real_less_rsqrt) simp
  then have "72 / (18 * sqrt 5) < 3" by (simp add: field_simps)
  moreover have "(0::real) \<le> 72 / (18 * sqrt 5)" by simp
  ultimately show ?thesis
    by (simp add: z_score_def sample_std_window mean_window default_threshold_def)
qed

text \<open>
  C3, as the spec states it, fails: in the window \<open>[10,10,10,10,100]\<close> the mean is 28 and
  the standard deviation 36, so the z-score of the reading 100 is 2, below the default
  threshold 3.0, and the reading is not flagged.
\<close>

theorem C3_counterexample:
  "\<bar>z_score std [10, 10, 10, 10, 100] 100\<bar> < default_threshold \<and>
   \<not> flagged std default_threshold [10, 10, 10, 10, 100] 100"
  by (simp add: flagged_def default_threshold_def z_score_100)

text \<open>
  C3, amended: over the window \<open>[10,10,10,10,100]\<close> the reading 100 has z-score 2 and
  every reading 10 has z-score -0.5; all five magnitudes are below the default threshold
  3.0 and no reading is flagged.
\<close>

theorem C3_window_scores:
  "detectAnomalies [10, 10, 10, 10, 100] =
     [(10, - 1 / 2, False), (10, - 1 / 2, False), (10, - 1 / 2, False),
      (10, - 1 / 2, False), (100, 2, False)]"
  by (simp add: detectAnomalies_def flagged_def default_threshold_def z_score_100 z_score_10)


section \<open>The reconnect loop\<close>

lemma forEach_frame:
  "client (state_of (forEach cbs ev d w)) = client w \<and>
   sockets (state_of (forEach cbs ev d w)) = sockets w \<and>
   timers (state_of (forEach cbs ev d w)) = timers w \<and>
   console (state_of (forEach cbs ev d w)) = console w \<and>
   VITE_WS_URL (state_of (forEach cbs ev d w)) = VITE_WS_URL w"
  by (induction cbs arbitrary: w) (auto split: completion.splits)

lemma emit_frame [simp]:
  "client (state_of (emit ev d w)) = client w"
  "sockets (state_of (emit ev d w)) = sockets w"
  "timers (state_of (emit ev d w)) = timers w"
  "console (state_of (emit ev d w)) = console w"
  "VITE_WS_URL (state_of (emit ev d w)) = VITE_WS_URL w"
  by (simp_all add: emit_def forEach_frame split: option.splits)

lemma forEach_returns:
  "\<forall>cb \<in> set cbs. \<forall>d u. \<not> threw (cb d u) \<Longrightarrow> \<not> threw (forEach cbs ev d w)"
proof (induction cbs arbitrary: w)
  case Nil
  then show ?case by simp
next
  case (Cons cb cbs)
  from Cons.prems have "\<not> threw (cb d (user w))" by simp
  then obtain u where "cb d (user w) = Normal u" by (cases "cb d (user w)") auto
  with Cons show ?case by simp
qed

lemma forEach_invoked:
  "\<exists>k. invoked (state_of (forEach cbs ev d w)) = invoked w @ replicate k ev \<and> (cbs \<noteq> [] \<longrightarrow> 0 < k)"
proof (induction cbs arbitrary: w)
  case Nil
  then show ?case by simp
next
  case (Cons cb cbs)
  show ?case
  proof (cases "cb d (user w)")
    case (Normal u)
    from Cons[of "w\<lparr>invoked := invoked w @ [ev], user := u\<rparr>"] obtain k where
      "invoked (state_of (forEach cbs ev d (w\<lparr>invoked := invoked w @ [ev], user := u\<rparr>))) = (invoked w @ [ev]) @ replicate k ev"
      by auto
    then have "invoked (state_of (forEach (cb # cbs) ev d w)) = invoked w @ replicate (Suc k) ev"
      using Normal by simp
    then show ?thesis by blast
  next
    case (Throw e u)
    then have "invoked (state_of (forEach (cb # cbs) ev d w)) = invoked w @ replicate (Suc 0) ev"
      by simp
    then show ?thesis by blast
  qed
qed

lemma emit_close_last:
  assumes "listeners (client w) ev = Some (cb # cbs)"
  shows "last (invoked (state_of (emit ev d w))) = ev"
proof -
  obtain k where k: "invoked (state_of (forEach (cb # cbs) ev d w)) = invoked w @ replicate k ev" "0 < k"
    using forEach_invoked[of "cb # cbs" ev d w] by auto
  have "last (invoked w @ replicate k ev) = ev"
    using k(2) by (simp add: last_append)
  with k(1) show ?thesis using assms by (simp add: emit_def)
qed

lemma emit_close_returns:
  assumes "close_listeners_return w"
  shows "\<not> threw (emit ''close'' d w)"
proof (cases "listeners (client w) ''close''")
  case None
  then show ?thesis by (simp add: emit_def)
next
  case (Some cbs)
  with assms have "\<forall>cb \<in> set cbs. \<forall>d u. \<not> threw (cb d u)"
    by (simp add: close_listeners_return_def)
  then have "\<not> threw (forEach cbs ''close'' d w)" by (rule forEach_returns)
  with Some show ?thesis by (simp add: emit_def)
qed

lemma print_fields [simp]:
  "client (print l w) = client w"
  "sockets (print l w) = sockets w"
  "timers (print l w) = timers w"
  "console (print l w) = console w @ [l]"
  "VITE_WS_URL (print l w) = VITE_WS_URL w"
  "invoked (print l w) = invoked w"
  "user (print l w) = user w"
  by (simp_all add: print_def)

lemma set_readyState_fields [simp]:
  "client (set_readyState i r w) = client w"
  "sockets (set_readyState i r w) = (sockets w)[i := (sockets w ! i)\<lparr>readyState := r\<rparr>]"
  "timers (set_readyState i r w) = timers w"
  "console (set_readyState i r w) = console w"
  "VITE_WS_URL (set_readyState i r w) = VITE_WS_URL w"
  "invoked (set_readyState i r w) = invoked w"
  "user (set_readyState i r w) = user w"
  by (simp_all add: set_readyState_def)

lemma connect_fields [simp]:
  "client (connect w) = (client w)\<lparr>ws := Some (length (sockets w))\<rparr>"
  "sockets (connect w) = sockets w @ [\<lparr>url = WS_BASE_URL (VITE_WS_URL w) @ endpoint (client w), readyState = CONNECTING, sent = []\<rparr>]"
  "timers (connect w) = timers w"
  "console (connect w) = console w"
  "VITE_WS_URL (connect w) = VITE_WS_URL w"
  "invoked (connect w) = invoked w"
  "user (connect w) = user w"
  by (simp_all add: connect_def)

lemma attemptReconnect_below:
  assumes "reconnectAttempts (client w) < maxReconnectAttempts (client w)"
  shows "attemptReconnect w =
     w\<lparr>client := (client w)\<lparr>reconnectAttempts := reconnectAttempts (client w) + 1\<rparr>,
       console := console w @
         [LogReconnecting (reconnectDelay (client w) * (reconnectAttempts (client w) + 1))
            (reconnectAttempts (client w) + 1) (maxReconnectAttempts (client w))],
       timers := timers w @ [reconnectDelay (client w) * (reconnectAttempts (client w) + 1)]\<rparr>"
  using assms unfolding attemptReconnect_def Let_def print_def by simp

lemma attemptReconnect_at_cap:
  assumes "\<not> reconnectAttempts (client w) < maxReconnectAttempts (client w)"
  shows "attemptReconnect w = print ErrorMaxAttempts w"
  using assms unfolding attemptReconnect_def by simp

lemma onclose_returns:
  assumes "close_listeners_return w"
  shows "onclose w =
    Normal (attemptReconnect (state_of (emit ''close'' JUndefined (print (LogClosed (endpoint (client w))) w))))"
proof -
  have "close_listeners_return (print (LogClosed (endpoint (client w))) w)"
    using assms by (simp add: close_listeners_return_def)
  then have "\<not> threw (emit ''close'' JUndefined (print (LogClosed (endpoint (client w))) w))"
    by (rule emit_close_returns)
  then show ?thesis
    by (cases "emit ''close'' JUndefined (print (LogClosed (endpoint (client w))) w)")
       (simp_all add: onclose_def)
qed


lemma close_listeners_return_client:
  "client w' = client w \<Longrightarrow> close_listeners_return w \<Longrightarrow> close_listeners_return w'"
  by (simp add: close_listeners_return_def)

text \<open>
  A failed attempt ends in \<open>onclose\<close>: the \<open>close\<close> listeners run in a world \<open>y\<close> and
  \<open>attemptReconnect\<close> follows.
\<close>

lemma fail_attempt_unfold:
  assumes "timers w = d # ds" and "close_listeners_return w"
  shows "\<exists>y. fail_attempt P err w = attemptReconnect (state_of (emit ''close'' JUndefined y)) \<and>
     client y = (client w)\<lparr>ws := Some (length (sockets w))\<rparr> \<and>
     sockets y = sockets w @
       [\<lparr>url = WS_BASE_URL (VITE_WS_URL w) @ endpoint (client w), readyState = CLOSED, sent = []\<rparr>] \<and>
     timers y = ds \<and>
     VITE_WS_URL y = VITE_WS_URL w \<and>
     console y = console w @ [ErrorWebSocket, LogClosed (endpoint (client w))]"
proof -
  define j where "j = length (sockets w)"
  define w1 where "w1 = connect (w\<lparr>timers := ds\<rparr>)"
  define w2 where "w2 = state_of (onerror err w1)"
  define w3 where "w3 = set_readyState j CLOSED w2"
  define y where "y = print (LogClosed (endpoint (client w3))) w3"
  have s1: "step P w (EvTimeout 0) = w1"
    using assms(1) by (simp add: step_def w1_def)
  have c1: "client w1 = (client w)\<lparr>ws := Some j\<rparr>"
    and k1: "sockets w1 = sockets w @
       [\<lparr>url = WS_BASE_URL (VITE_WS_URL w) @ endpoint (client w), readyState = CONNECTING, sent = []\<rparr>]"
    and t1: "timers w1 = ds" and e1: "VITE_WS_URL w1 = VITE_WS_URL w" and o1: "console w1 = console w"
    by (simp_all add: w1_def j_def)
  have en2: "enabled w1 (EvError j err)"
    by (simp add: k1 j_def)
  then have s2: "step P w1 (EvError j err) = w2"
    by (simp add: step_def w2_def)
  have c2: "client w2 = client w1" and k2: "sockets w2 = sockets w1" and t2: "timers w2 = ds"
    and e2: "VITE_WS_URL w2 = VITE_WS_URL w" and o2: "console w2 = console w @ [ErrorWebSocket]"
    by (simp_all add: w2_def onerror_def t1 e1 o1)
  have en3: "enabled w2 (EvClose j)"
    by (simp add: k2 k1 j_def)
  have c3: "client w3 = client w1" and t3: "timers w3 = ds"
    and e3: "VITE_WS_URL w3 = VITE_WS_URL w" and o3: "console w3 = console w @ [ErrorWebSocket]"
    and k3: "sockets w3 = sockets w @
       [\<lparr>url = WS_BASE_URL (VITE_WS_URL w) @ endpoint (client w), readyState = CLOSED, sent = []\<rparr>]"
    by (simp_all add: w3_def c2 t2 e2 o2 k2 k1 j_def)
  have "close_listeners_return w3"
    using assms(2) by (simp add: close_listeners_return_def c3 c1)
  then have "onclose w3 = Normal (attemptReconnect (state_of (emit ''close'' JUndefined y)))"
    unfolding y_def by (rule onclose_returns)
  with en3 have s3: "step P w2 (EvClose j) = attemptReconnect (state_of (emit ''close'' JUndefined y))"
    by (simp add: step_def w3_def)
  have fa: "fail_attempt P err w = attemptReconnect (state_of (emit ''close'' JUndefined y))"
    by (simp add: fail_attempt_def s1 c1 s2 s3)
  have cy: "client y = (client w)\<lparr>ws := Some (length (sockets w))\<rparr>"
    by (simp add: y_def c3 c1 j_def)
  have ky: "sockets y = sockets w @
       [\<lparr>url = WS_BASE_URL (VITE_WS_URL w) @ endpoint (client w), readyState = CLOSED, sent = []\<rparr>]"
    by (simp add: y_def k3)
  have ty: "timers y = ds" and ey: "VITE_WS_URL y = VITE_WS_URL w"
    by (simp_all add: y_def t3 e3)
  have oy: "console y = console w @ [ErrorWebSocket, LogClosed (endpoint (client w))]"
    by (simp add: y_def o3 c3 c1)
  from fa cy ky ty ey oy show ?thesis by blast
qed

lemma fail_attempt_below:
  assumes "timers w = d # ds" and "close_listeners_return w"
    and "reconnectAttempts (client w) < maxReconnectAttempts (client w)"
  shows "client (fail_attempt P err w) =
           (client w)\<lparr>ws := Some (length (sockets w)),
                       reconnectAttempts := reconnectAttempts (client w) + 1\<rparr>"
    and "sockets (fail_attempt P err w) = sockets w @
       [\<lparr>url = WS_BASE_URL (VITE_WS_URL w) @ endpoint (client w), readyState = CLOSED, sent = []\<rparr>]"
    and "timers (fail_attempt P err w) =
           ds @ [reconnectDelay (client w) * (reconnectAttempts (client w) + 1)]"
    and "VITE_WS_URL (fail_attempt P err w) = VITE_WS_URL w"
proof -
  from fail_attempt_unfold[OF assms(1,2), of P err] obtain y where
    y: "fail_attempt P err w = attemptReconnect (state_of (emit ''close'' JUndefined y))"
       "client y = (client w)\<lparr>ws := Some (length (sockets w))\<rparr>"
       "sockets y = sockets w @
         [\<lparr>url = WS_BASE_URL (VITE_WS_URL w) @ endpoint (client w), readyState = CLOSED, sent = []\<rparr>]"
       "timers y = ds" "VITE_WS_URL y = VITE_WS_URL w"
    by blast
  define x where "x = state_of (emit ''close'' JUndefined y)"
  have x: "fail_attempt P err w = attemptReconnect x"
       "client x = (client w)\<lparr>ws := Some (length (sockets w))\<rparr>"
       "sockets x = sockets w @
         [\<lparr>url = WS_BASE_URL (VITE_WS_URL w) @ endpoint (client w), readyState = CLOSED, sent = []\<rparr>]"
       "timers x = ds" "VITE_WS_URL x = VITE_WS_URL w"
    using y by (simp_all add: x_def)
  have b: "reconnectAttempts (client x) < maxReconnectAttempts (client x)"
    using assms(3) by (simp add: x(2))
  note eq = attemptReconnect_below[OF b]
  show "client (fail_attempt P err w) =
           (client w)\<lparr>ws := Some (length (sockets w)),
                       reconnectAttempts := reconnectAttempts (client w) + 1\<rparr>"
    by (simp add: x(1) eq x(2))
  show "sockets (fail_attempt P err w) = sockets w @
       [\<lparr>url = WS_BASE_URL (VITE_WS_URL w) @ endpoint (client w), readyState = CLOSED, sent = []\<rparr>]"
    by (simp add: x(1) eq x(3))
  show "timers (fail_attempt P err w) =
           ds @ [reconnectDelay (client w) * (reconnectAttempts (client w) + 1)]"
    by (simp add: x(1) eq x(2) x(4))
  show "VITE_WS_URL (fail_attempt P err w) = VITE_WS_URL w"
    by (simp add: x(1) eq x(5))
qed

lemma fail_attempt_at_cap:
  assumes "timers w = d # ds" and "close_listeners_return w"
    and "\<not> reconnectAttempts (client w) < maxReconnectAttempts (client w)"
  shows "client (fail_attempt P err w) = (client w)\<lparr>ws := Some (length (sockets w))\<rparr>"
    and "sockets (fail_attempt P err w) = sockets w @
       [\<lparr>url = WS_BASE_URL (VITE_WS_URL w) @ endpoint (client w), readyState = CLOSED, sent = []\<rparr>]"
    and "timers (fail_attempt P err w) = ds"
    and "VITE_WS_URL (fail_attempt P err w) = VITE_WS_URL w"
    and "last (console (fail_attempt P err w)) = ErrorMaxAttempts"
proof -
  from fail_attempt_unfold[OF assms(1,2), of P err] obtain y where
    y: "fail_attempt P err w = attemptReconnect (state_of (emit ''close'' JUndefined y))"
       "client y = (client w)\<lparr>ws := Some (length (sockets w))\<rparr>"
       "sockets y = sockets w @
         [\<lparr>url = WS_BASE_URL (VITE_WS_URL w) @ endpoint (client w), readyState = CLOSED, sent = []\<rparr>]"
       "timers y = ds" "VITE_WS_URL y = VITE_WS_URL w"
    by blast
  define x where "x = state_of (emit ''close'' JUndefined y)"
  have x: "fail_attempt P err w = attemptReconnect x"
       "client x = (client w)\<lparr>ws := Some (length (sockets w))\<rparr>"
       "sockets x = sockets w @
         [\<lparr>url = WS_BASE_URL (VITE_WS_URL w) @ endpoint (client w), readyState = CLOSED, sent = []\<rparr>]"
       "timers x = ds" "VITE_WS_URL x = VITE_WS_URL w"
    using y by (simp_all add: x_def)
  have b: "\<not> reconnectAttempts (client x) < maxReconnectAttempts (client x)"
    using assms(3) by (simp add: x(2))
  note eq = attemptReconnect_at_cap[OF b]
  show "client (fail_attempt P err w) = (client w)\<lparr>ws := Some (length (sockets w))\<rparr>"
    by (simp add: x(1) eq x(2))
  show "sockets (fail_attempt P err w) = sockets w @
       [\<lparr>url = WS_BASE_URL (VITE_WS_URL w) @ endpoint (client w), readyState = CLOSED, sent = []\<rparr>]"
    by (simp add: x(1) eq x(3))
  show "timers (fail_attempt P err w) = ds"
    by (simp add: x(1) eq x(4))
  show "VITE_WS_URL (fail_attempt P err w) = VITE_WS_URL w"
    by (simp add: x(1) eq x(5))
  show "last (console (fail_attempt P err w)) = ErrorMaxAttempts"
    by (simp add: x(1) eq)
qed

lemma attemptReconnect_user:
  "user (attemptReconnect x) = user x" "invoked (attemptReconnect x) = invoked x"
  by (cases "reconnectAttempts (client x) < maxReconnectAttempts (client x)";
      simp add: attemptReconnect_below attemptReconnect_at_cap)+

lemma fail_attempt_invoked:
  assumes "timers w = d # ds" and "close_listeners_return w"
    and "listeners (client w) ''close'' = Some (cb # cbs)"
  shows "last (invoked (fail_attempt P err w)) = ''close''"
proof -
  from fail_attempt_unfold[OF assms(1,2), of P err] obtain y where
    y: "fail_attempt P err w = attemptReconnect (state_of (emit ''close'' JUndefined y))"
       "client y = (client w)\<lparr>ws := Some (length (sockets w))\<rparr>"
    by blast
  have "listeners (client y) ''close'' = Some (cb # cbs)"
    using assms(3) by (simp add: y(2))
  then have "last (invoked (state_of (emit ''close'' JUndefined y))) = ''close''"
    by (rule emit_close_last)
  then show ?thesis by (simp add: y(1) attemptReconnect_user)
qed

lemma run_failing_quiet:
  "timers w = [] \<Longrightarrow> run_failing P err n w = Some w"
  by (cases n) simp_all


lemma run_failing_quiesces:
  assumes "k = maxReconnectAttempts (client w) - reconnectAttempts (client w)"
    and "reconnectAttempts (client w) \<le> maxReconnectAttempts (client w)"
    and "timers w = [d]" and "close_listeners_return w" and "k < fuel"
  shows "\<exists>w' w0. run_failing P err fuel w = Some w' \<and>
     w' = fail_attempt P err w0 \<and> timers w0 \<noteq> [] \<and> close_listeners_return w0 \<and>
     listeners (client w0) = listeners (client w) \<and>
     timers w' = [] \<and>
     sockets w' = sockets w @ replicate (Suc k)
        \<lparr>url = WS_BASE_URL (VITE_WS_URL w) @ endpoint (client w), readyState = CLOSED, sent = []\<rparr> \<and>
     client w' = (client w)\<lparr>ws := Some (length (sockets w) + k),
                             reconnectAttempts := maxReconnectAttempts (client w)\<rparr> \<and>
     VITE_WS_URL w' = VITE_WS_URL w \<and>
     last (console w') = ErrorMaxAttempts"
  using assms
proof (induction k arbitrary: w d fuel)
  case 0
  then obtain n where fuel: "fuel = Suc n" by (cases fuel) auto
  from 0 have cap: "\<not> reconnectAttempts (client w) < maxReconnectAttempts (client w)"
    and eq: "reconnectAttempts (client w) = maxReconnectAttempts (client w)"
    by simp_all
  note fa = fail_attempt_at_cap[OF "0.prems"(3) "0.prems"(4) cap, of P err]
  have run0: "run_failing P err fuel w = Some (fail_attempt P err w)"
    using "0.prems"(3) fa(3) by (simp add: fuel run_failing_quiet)
  have cl0: "(client w)\<lparr>ws := Some (length (sockets w))\<rparr> =
      (client w)\<lparr>ws := Some (length (sockets w) + 0),
                    reconnectAttempts := maxReconnectAttempts (client w)\<rparr>"
    by (simp add: eq[symmetric])
  show ?case
    apply (rule exI[of _ "fail_attempt P err w"])
    apply (rule exI[of _ w])
    apply (intro conjI)
             apply (rule run0)
            apply (rule refl)
           apply (simp add: "0.prems"(3))
          apply (rule "0.prems"(4))
         apply (rule refl)
        apply (simp add: fa(3))
       apply (simp add: fa(2))
      apply (simp only: fa(1) cl0)
     apply (rule fa(4))
    apply (rule fa(5))
    done
next
  case (Suc k)
  then obtain n where fuel: "fuel = Suc n" by (cases fuel) auto
  let ?w1 = "fail_attempt P err w"
  from Suc.prems have below: "reconnectAttempts (client w) < maxReconnectAttempts (client w)"
    by simp
  note fa = fail_attempt_below[OF Suc.prems(3) Suc.prems(4) below, of P err]
  have k1: "k = maxReconnectAttempts (client ?w1) - reconnectAttempts (client ?w1)"
    using Suc.prems(1) by (simp add: fa(1))
  have le1: "reconnectAttempts (client ?w1) \<le> maxReconnectAttempts (client ?w1)"
    using below by (simp add: fa(1))
  have t1: "timers ?w1 = [reconnectDelay (client w) * (reconnectAttempts (client w) + 1)]"
    by (simp add: fa(3))
  have cl1: "close_listeners_return ?w1"
    using Suc.prems(4) by (simp add: close_listeners_return_def fa(1))
  have f1: "k < n" using Suc.prems(5) fuel by simp
  from Suc.IH[OF k1 le1 t1 cl1 f1] obtain w' w0 where
    r: "run_failing P err n ?w1 = Some w'" "w' = fail_attempt P err w0" "timers w0 \<noteq> []"
       "close_listeners_return w0"
       "listeners (client w0) = listeners (client ?w1)" "timers w' = []"
       "sockets w' = sockets ?w1 @ replicate (Suc k)
          \<lparr>url = WS_BASE_URL (VITE_WS_URL ?w1) @ endpoint (client ?w1), readyState = CLOSED, sent = []\<rparr>"
       "client w' = (client ?w1)\<lparr>ws := Some (length (sockets ?w1) + k),
                             reconnectAttempts := maxReconnectAttempts (client ?w1)\<rparr>"
       "VITE_WS_URL w' = VITE_WS_URL ?w1" "last (console w') = ErrorMaxAttempts"
    by blast
  have run: "run_failing P err fuel w = Some w'"
    using Suc.prems(3) r(1) by (simp add: fuel)
  have l: "listeners (client w0) = listeners (client w)"
    by (simp add: r(5) fa(1))
  have sk: "sockets w' = sockets w @ replicate (Suc (Suc k))
        \<lparr>url = WS_BASE_URL (VITE_WS_URL w) @ endpoint (client w), readyState = CLOSED, sent = []\<rparr>"
    by (simp add: r(7) fa(1,2,4))
  have cl: "client w' = (client w)\<lparr>ws := Some (length (sockets w) + Suc k),
                             reconnectAttempts := maxReconnectAttempts (client w)\<rparr>"
    by (simp add: r(8) fa(1,2))
  have e: "VITE_WS_URL w' = VITE_WS_URL w"
    by (simp add: r(9) fa(4))
  show ?case
    apply (rule exI[of _ w'])
    apply (rule exI[of _ w0])
    apply (intro conjI)
             apply (rule run)
            apply (rule r(2))
           apply (rule r(3))
          apply (rule r(4))
         apply (rule l)
        apply (rule r(6))
       apply (rule sk)
      apply (rule cl)
     apply (rule e)
    apply (rule r(10))
    done
qed


lemma step_close:
  assumes "enabled w (EvClose i)" and "close_listeners_return w"
  shows "\<exists>y. step P w (EvClose i) = attemptReconnect (state_of (emit ''close'' JUndefined y)) \<and>
     client y = client w \<and>
     sockets y = (sockets w)[i := (sockets w ! i)\<lparr>readyState := CLOSED\<rparr>] \<and>
     timers y = timers w \<and> VITE_WS_URL y = VITE_WS_URL w"
proof -
  define w3 where "w3 = set_readyState i CLOSED w"
  define y where "y = print (LogClosed (endpoint (client w3))) w3"
  have "close_listeners_return w3"
    using assms(2) by (simp add: close_listeners_return_def w3_def)
  then have "onclose w3 = Normal (attemptReconnect (state_of (emit ''close'' JUndefined y)))"
    unfolding y_def by (rule onclose_returns)
  with assms(1) have "step P w (EvClose i) = attemptReconnect (state_of (emit ''close'' JUndefined y))"
    by (simp add: step_def w3_def)
  moreover have "client y = client w" "timers y = timers w" "VITE_WS_URL y = VITE_WS_URL w"
    "sockets y = (sockets w)[i := (sockets w ! i)\<lparr>readyState := CLOSED\<rparr>]"
    by (simp_all add: y_def w3_def)
  ultimately show ?thesis by blast
qed

lemma close_then_failing:
  assumes "enabled w (EvClose i)" and "close_listeners_return w" and "timers w = []"
    and "reconnectAttempts (client w) = 0" and "maxReconnectAttempts (client w) = Suc k"
    and "Suc k \<le> fuel"
  shows "\<exists>w' w0. run_failing P err fuel (step P w (EvClose i)) = Some w' \<and>
     w' = fail_attempt P err w0 \<and> timers w0 \<noteq> [] \<and> close_listeners_return w0 \<and>
     listeners (client w0) = listeners (client w) \<and>
     timers w' = [] \<and>
     sockets w' = (sockets w)[i := (sockets w ! i)\<lparr>readyState := CLOSED\<rparr>] @ replicate (Suc k)
        \<lparr>url = WS_BASE_URL (VITE_WS_URL w) @ endpoint (client w), readyState = CLOSED, sent = []\<rparr> \<and>
     client w' = (client w)\<lparr>ws := Some (length (sockets w) + k), reconnectAttempts := Suc k\<rparr> \<and>
     VITE_WS_URL w' = VITE_WS_URL w \<and>
     last (console w') = ErrorMaxAttempts"
proof -
  from step_close[OF assms(1,2), of P] obtain y where
    y: "step P w (EvClose i) = attemptReconnect (state_of (emit ''close'' JUndefined y))"
       "client y = client w"
       "sockets y = (sockets w)[i := (sockets w ! i)\<lparr>readyState := CLOSED\<rparr>]"
       "timers y = timers w" "VITE_WS_URL y = VITE_WS_URL w"
    by blast
  define x where "x = state_of (emit ''close'' JUndefined y)"
  define wc where "wc = step P w (EvClose i)"
  have x: "client x = client w"
    "sockets x = (sockets w)[i := (sockets w ! i)\<lparr>readyState := CLOSED\<rparr>]"
    "timers x = []" "VITE_WS_URL x = VITE_WS_URL w"
    by (simp_all add: x_def y assms(3))
  have b: "reconnectAttempts (client x) < maxReconnectAttempts (client x)"
    by (simp add: x(1) assms(4,5))
  have wc: "wc = attemptReconnect x" by (simp add: wc_def y(1) x_def)
  note eq = attemptReconnect_below[OF b]
  have cc: "client wc = (client w)\<lparr>reconnectAttempts := 1\<rparr>"
    by (simp add: wc eq x(1) assms(4))
  have kc: "sockets wc = (sockets w)[i := (sockets w ! i)\<lparr>readyState := CLOSED\<rparr>]"
    by (simp add: wc eq x(2))
  have tc: "timers wc = [reconnectDelay (client w)]"
    by (simp add: wc eq x(1,3) assms(4))
  have ec: "VITE_WS_URL wc = VITE_WS_URL w"
    by (simp add: wc eq x(4))
  have k1: "k = maxReconnectAttempts (client wc) - reconnectAttempts (client wc)"
    by (simp add: cc assms(5))
  have le1: "reconnectAttempts (client wc) \<le> maxReconnectAttempts (client wc)"
    by (simp add: cc assms(5))
  have cl1: "close_listeners_return wc"
    using assms(2) by (simp add: close_listeners_return_def cc)
  have f1: "k < fuel" using assms(6) by simp
  from run_failing_quiesces[OF k1 le1 tc cl1 f1, of P err] obtain w' w0 where
    r: "run_failing P err fuel wc = Some w'" "w' = fail_attempt P err w0" "timers w0 \<noteq> []"
       "close_listeners_return w0"
       "listeners (client w0) = listeners (client wc)" "timers w' = []"
       "sockets w' = sockets wc @ replicate (Suc k)
          \<lparr>url = WS_BASE_URL (VITE_WS_URL wc) @ endpoint (client wc), readyState = CLOSED, sent = []\<rparr>"
       "client w' = (client wc)\<lparr>ws := Some (length (sockets wc) + k),
                             reconnectAttempts := maxReconnectAttempts (client wc)\<rparr>"
       "VITE_WS_URL w' = VITE_WS_URL wc" "last (console w') = ErrorMaxAttempts"
    by blast
  have l: "listeners (client w0) = listeners (client w)"
    by (simp add: r(5) cc)
  have sk: "sockets w' = (sockets w)[i := (sockets w ! i)\<lparr>readyState := CLOSED\<rparr>] @ replicate (Suc k)
        \<lparr>url = WS_BASE_URL (VITE_WS_URL w) @ endpoint (client w), readyState = CLOSED, sent = []\<rparr>"
    by (simp add: r(7) cc kc ec)
  have cl: "client w' = (client w)\<lparr>ws := Some (length (sockets w) + k), reconnectAttempts := Suc k\<rparr>"
    by (simp add: r(8) cc kc assms(5))
  have e: "VITE_WS_URL w' = VITE_WS_URL w"
    by (simp add: r(9) ec)
  show ?thesis
    apply (rule exI[of _ w'])
    apply (rule exI[of _ w0])
    apply (intro conjI)
             apply (rule r(1)[unfolded wc_def])
            apply (rule r(2))
           apply (rule r(3))
          apply (rule r(4))
         apply (rule l)
        apply (rule r(6))
       apply (rule sk)
      apply (rule cl)
     apply (rule e)
    apply (rule r(10))
    done
qed


section \<open>The Dashboard's client\<close>

lemma Dashboard_mount_fields:
  "client (Dashboard_mount env) =
     (constructor ''/ws/events'')\<lparr>ws := Some 0,
        listeners := [''open'' \<mapsto> [on_open], ''message'' \<mapsto> [on_message], ''close'' \<mapsto> [on_close]]\<rparr>"
  "sockets (Dashboard_mount env) =
     [\<lparr>url = WS_BASE_URL env @ ''/ws/events'', readyState = CONNECTING, sent = []\<rparr>]"
  "timers (Dashboard_mount env) = []"
  "console (Dashboard_mount env) = []"
  "invoked (Dashboard_mount env) = []"
  "user (Dashboard_mount env) = Dashboard_init"
  "VITE_WS_URL (Dashboard_mount env) = env"
  by (simp_all add: Dashboard_mount_def on_def new_world_def createEventsWebSocket_def constructor_def)

lemma Dashboard_mount_listening: "dashboard_listening (Dashboard_mount env)"
  by (simp add: dashboard_listening_def Dashboard_mount_fields)

lemma dashboard_close_listeners_return:
  "dashboard_listening w \<Longrightarrow> close_listeners_return w"
  by (simp add: dashboard_listening_def close_listeners_return_def on_close_def)

lemma step_open:
  assumes "enabled w (EvOpen i)"
  shows "client (step P w (EvOpen i)) = (client w)\<lparr>reconnectAttempts := 0\<rparr>"
    and "sockets (step P w (EvOpen i)) = (sockets w)[i := (sockets w ! i)\<lparr>readyState := OPEN\<rparr>]"
    and "timers (step P w (EvOpen i)) = timers w"
    and "VITE_WS_URL (step P w (EvOpen i)) = VITE_WS_URL w"
  using assms by (simp_all add: step_def onopen_def Let_def)

text \<open>
  \<open>onclose\<close> calls \<open>this.emit('close')\<close> before \<open>this.attemptReconnect()\<close> and has no
  \<open>try\<close>: when the first \<open>close\<close> listener throws, \<open>attemptReconnect\<close> is not reached, so
  no timer is set and the counter stays.
\<close>

lemma onclose_listener_throws:
  assumes "listeners (client w) ''close'' = Some (cb # cbs)"
    and "threw (cb JUndefined (user w))"
  shows "threw (onclose w) \<and> timers (state_of (onclose w)) = timers w \<and>
         client (state_of (onclose w)) = client w"
proof -
  let ?w = "print (LogClosed (endpoint (client w))) w"
  from assms(2) obtain e u where c: "cb JUndefined (user w) = Throw e u"
    by (cases "cb JUndefined (user w)") auto
  have t: "emit ''close'' JUndefined ?w =
      Throw e (?w\<lparr>invoked := invoked ?w @ [''close''], user := u\<rparr>)"
    using assms(1) c by (simp add: emit_def)
  have "onclose w = Throw e (?w\<lparr>invoked := invoked ?w @ [''close''], user := u\<rparr>)"
    by (simp add: onclose_def t)
  then show ?thesis by simp
qed

text \<open>
  The Dashboard's client evaluated. The parser is the empty table: no frame arrives in
  these runs. After the socket has opened and closed for the first time a retry is
  pending (timer 1000) and the Dashboard has been told \<open>close\<close>.
\<close>

lemma dashboard_first_close_eval:
  "(timers (step (map_of []) (step (map_of []) (Dashboard_mount None) (EvOpen 0)) (EvClose 0)),
    invoked (step (map_of []) (step (map_of []) (Dashboard_mount None) (EvOpen 0)) (EvClose 0)),
    user (step (map_of []) (step (map_of []) (Dashboard_mount None) (EvOpen 0)) (EvClose 0))) =
   ([1000], [''open'', ''close''], \<lparr>liveEvents = [], wsConnected = False\<rparr>)"
  by code_simp

text \<open>
  From there every reconnect attempt fails: six closed sockets, one \<open>open\<close> and six
  \<open>close\<close> notifications, \<open>wsConnected\<close> false, and the delays 1000 to 5000 in the log.
\<close>

lemma dashboard_failing_run_eval:
  "map_option
     (\<lambda>w. (map readyState (sockets w), timers w, invoked w, user w,
           reconnectAttempts (client w), console w))
     (run_failing (map_of []) JUndefined 5
        (step (map_of []) (step (map_of []) (Dashboard_mount None) (EvOpen 0)) (EvClose 0)))
   = Some ([CLOSED, CLOSED, CLOSED, CLOSED, CLOSED, CLOSED], [],
        [''open'', ''close'', ''close'', ''close'', ''close'', ''close'', ''close''],
        \<lparr>liveEvents = [], wsConnected = False\<rparr>, 5,
        [LogConnected ''/ws/events'',
         LogClosed ''/ws/events'', LogReconnecting 1000 1 5,
         ErrorWebSocket, LogClosed ''/ws/events'', LogReconnecting 2000 2 5,
         ErrorWebSocket, LogClosed ''/ws/events'', LogReconnecting 3000 3 5,
         ErrorWebSocket, LogClosed ''/ws/events'', LogReconnecting 4000 4 5,
         ErrorWebSocket, LogClosed ''/ws/events'', LogReconnecting 5000 5 5,
         ErrorWebSocket, LogClosed ''/ws/events'', ErrorMaxAttempts])"
  by code_simp

text \<open>With fuel for four attempts only, the fifth timer is still pending.\<close>

lemma dashboard_failing_run_short:
  "Option.is_none (run_failing (map_of []) JUndefined 4
     (step (map_of []) (step (map_of []) (Dashboard_mount None) (EvOpen 0)) (EvClose 0)))"
  by code_simp

text \<open>
  A client whose \<open>close\<close> listener reads \<open>data.data\<close>, as the Dashboard's message listener
  does: \<open>emit('close')\<close> passes \<open>undefined\<close>, the listener throws, and after the close there
  is still one socket, no timer and the counter 0.
\<close>

lemma throwing_listener_eval:
  "(timers (step (map_of [])
       (connect (on ''close'' on_message (new_world None (createEventsWebSocket ()) Dashboard_init)))
       (EvClose 0)),
    map readyState (sockets (step (map_of [])
       (connect (on ''close'' on_message (new_world None (createEventsWebSocket ()) Dashboard_init)))
       (EvClose 0))),
    reconnectAttempts (client (step (map_of [])
       (connect (on ''close'' on_message (new_world None (createEventsWebSocket ()) Dashboard_init)))
       (EvClose 0)))) =
   ([], [CLOSED], 0)"
  by code_simp

text \<open>
  C1, as stated, fails twice. First, the five attempts hang on the listeners: with a
  \<open>close\<close> listener that throws, the connection closes and no reconnect attempt is made
  at all. Second, nothing terminal reaches the caller: when the Dashboard's client has
  given up (no timer left), the Dashboard has received \<open>close\<close> notifications only and
  is in the very state it was in after the first close, when a retry was still pending.
\<close>

theorem C1_counterexample:
  "timers (step (map_of [])
       (connect (on ''close'' on_message (new_world None (createEventsWebSocket ()) Dashboard_init)))
       (EvClose 0)) = [] \<and>
   map readyState (sockets (step (map_of [])
       (connect (on ''close'' on_message (new_world None (createEventsWebSocket ()) Dashboard_init)))
       (EvClose 0))) = [CLOSED] \<and>
   timers (step (map_of []) (step (map_of []) (Dashboard_mount None) (EvOpen 0)) (EvClose 0)) = [1000] \<and>
   invoked (step (map_of []) (step (map_of []) (Dashboard_mount None) (EvOpen 0)) (EvClose 0)) =
     [''open'', ''close''] \<and>
   user (step (map_of []) (step (map_of []) (Dashboard_mount None) (EvOpen 0)) (EvClose 0)) =
     \<lparr>liveEvents = [], wsConnected = False\<rparr> \<and>
   map_option timers (run_failing (map_of []) JUndefined 5
     (step (map_of []) (step (map_of []) (Dashboard_mount None) (EvOpen 0)) (EvClose 0))) = Some [] \<and>
   map_option invoked (run_failing (map_of []) JUndefined 5
     (step (map_of []) (step (map_of []) (Dashboard_mount None) (EvOpen 0)) (EvClose 0))) =
     Some [''open'', ''close'', ''close'', ''close'', ''close'', ''close'', ''close''] \<and>
   map_option user (run_failing (map_of []) JUndefined 5
     (step (map_of []) (step (map_of []) (Dashboard_mount None) (EvOpen 0)) (EvClose 0))) =
     Some \<lparr>liveEvents = [], wsConnected = False\<rparr>"
proof -
  from dashboard_failing_run_eval obtain w where
    w: "run_failing (map_of []) JUndefined 5
          (step (map_of []) (step (map_of []) (Dashboard_mount None) (EvOpen 0)) (EvClose 0)) = Some w"
       "timers w = []"
       "invoked w = [''open'', ''close'', ''close'', ''close'', ''close'', ''close'', ''close'']"
       "user w = \<lparr>liveEvents = [], wsConnected = False\<rparr>"
    by (auto simp only: map_option_eq_Some prod.inject)
  from throwing_listener_eval dashboard_first_close_eval w show ?thesis
    by (simp only: prod.inject option.map option.inject simp_thms)
qed

text \<open>
  C1, amended: a client as the constructor leaves it (counter 0, cap 5), none of whose
  \<open>close\<close> listeners throws, loses its connection and every reconnect attempt fails.
  With fuel for at least five attempts the run ends: it has opened exactly five new
  sockets, as many as \<open>maxReconnectAttempts\<close>, all of them for the client's endpoint and
  all closed; the counter stands at the cap, no timer is pending and running on does
  nothing more. The caller is told \<open>close\<close> at every close, the last one included, and
  nothing else: the final world is the one the last \<open>close\<close> notification left, with
  the line "Max reconnection attempts reached" added to the console.
\<close>

theorem C1_reconnect_cap:
  assumes "client w = (constructor ep)\<lparr>ws := s, listeners := L\<rparr>"
    and "timers w = []" and "enabled w (EvClose i)" and "close_listeners_return w"
    and "5 \<le> fuel"
  shows "\<exists>w'. run_failing P err fuel (step P w (EvClose i)) = Some w' \<and>
      length (sockets w') = length (sockets w) + maxReconnectAttempts (client w) \<and>
      drop (length (sockets w)) (sockets w') =
        replicate 5 \<lparr>url = WS_BASE_URL (VITE_WS_URL w) @ ep, readyState = CLOSED, sent = []\<rparr> \<and>
      reconnectAttempts (client w') = 5 \<and>
      timers w' = [] \<and>
      last (console w') = ErrorMaxAttempts \<and>
      (\<forall>n. run_failing P err n w' = Some w') \<and>
      (\<exists>y. w' = print ErrorMaxAttempts (state_of (emit ''close'' JUndefined y)) \<and>
           listeners (client y) = L) \<and>
      (\<forall>cb cbs. L ''close'' = Some (cb # cbs) \<longrightarrow> last (invoked w') = ''close'')"
proof -
  have a: "reconnectAttempts (client w) = 0" and m: "maxReconnectAttempts (client w) = Suc 4"
    and e: "endpoint (client w) = ep" and l: "listeners (client w) = L"
    by (simp_all add: assms(1) constructor_def)
  have f: "Suc 4 \<le> fuel" using assms(5) by simp
  from close_then_failing[OF assms(3) assms(4) assms(2) a m f, of P err] obtain w' w0 where
    r: "run_failing P err fuel (step P w (EvClose i)) = Some w'"
       "w' = fail_attempt P err w0" "timers w0 \<noteq> []" "close_listeners_return w0"
       "listeners (client w0) = listeners (client w)" "timers w' = []"
       "sockets w' = (sockets w)[i := (sockets w ! i)\<lparr>readyState := CLOSED\<rparr>] @ replicate (Suc 4)
          \<lparr>url = WS_BASE_URL (VITE_WS_URL w) @ endpoint (client w), readyState = CLOSED, sent = []\<rparr>"
       "client w' = (client w)\<lparr>ws := Some (length (sockets w) + 4), reconnectAttempts := Suc 4\<rparr>"
       "last (console w') = ErrorMaxAttempts"
    by blast
  obtain d ds where t: "timers w0 = d # ds" using r(3) by (cases "timers w0") auto
  have len: "length (sockets w') = length (sockets w) + maxReconnectAttempts (client w)"
    by (simp add: r(7) m)
  have dr: "drop (length (sockets w)) (sockets w') =
        replicate 5 \<lparr>url = WS_BASE_URL (VITE_WS_URL w) @ ep, readyState = CLOSED, sent = []\<rparr>"
    by (simp add: r(7) e numeral_eq_Suc)
  have cnt: "reconnectAttempts (client w') = 5"
    by (simp add: r(8))
  have stay: "\<forall>n. run_failing P err n w' = Some w'"
    by (simp add: run_failing_quiet r(6))
  have logged: "\<exists>y. w' = print ErrorMaxAttempts (state_of (emit ''close'' JUndefined y)) \<and>
           listeners (client y) = L"
  proof -
    from fail_attempt_unfold[OF t r(4), of P err] obtain y where
      y: "fail_attempt P err w0 = attemptReconnect (state_of (emit ''close'' JUndefined y))"
         "client y = (client w0)\<lparr>ws := Some (length (sockets w0))\<rparr>"
      by blast
    let ?x = "state_of (emit ''close'' JUndefined y)"
    have cap: "\<not> reconnectAttempts (client ?x) < maxReconnectAttempts (client ?x)"
    proof
      assume b: "reconnectAttempts (client ?x) < maxReconnectAttempts (client ?x)"
      have "timers (attemptReconnect ?x) \<noteq> []"
        by (simp add: attemptReconnect_below[OF b])
      with r(2) r(6) y(1) show False by simp
    qed
    have "w' = print ErrorMaxAttempts ?x"
      by (simp add: r(2) y(1) attemptReconnect_at_cap[OF cap])
    moreover have "listeners (client y) = L"
      by (simp add: y(2) r(5) l)
    ultimately show ?thesis by blast
  qed
  have inv: "\<forall>cb cbs. L ''close'' = Some (cb # cbs) \<longrightarrow> last (invoked w') = ''close''"
  proof (intro allI impI)
    fix cb cbs assume "L ''close'' = Some (cb # cbs)"
    then have c: "listeners (client w0) ''close'' = Some (cb # cbs)"
      by (simp add: r(5) l)
    show "last (invoked w') = ''close''"
      unfolding r(2) by (rule fail_attempt_invoked[OF t r(4) c])
  qed
  from r(1) len dr cnt r(6) r(9) stay logged inv show ?thesis by blast
qed

text \<open>
  C1, amended, on the Dashboard's client after its socket had opened, with the default
  base url: the Dashboard showed the connection as live, and once the client has given
  up it shows it as disconnected.
\<close>

theorem C1_witness:
  "wsConnected (user (step (map_of []) (Dashboard_mount None) (EvOpen 0))) \<and>
   (\<exists>w'. run_failing (map_of []) JUndefined 5
           (step (map_of []) (step (map_of []) (Dashboard_mount None) (EvOpen 0)) (EvClose 0)) =
             Some w' \<and>
      length (sockets w') = 6 \<and>
      drop 1 (sockets w') =
        replicate 5 \<lparr>url = ''ws://localhost:8000/ws/events'', readyState = CLOSED, sent = []\<rparr> \<and>
      reconnectAttempts (client w') = 5 \<and>
      timers w' = [] \<and>
      last (console w') = ErrorMaxAttempts \<and>
      last (invoked w') = ''close'' \<and>
      \<not> wsConnected (user w'))"
proof -
  let ?P = "map_of [] :: string \<Rightarrow> jsval option"
  let ?w = "step ?P (Dashboard_mount None) (EvOpen 0)"
  let ?L = "[''open'' \<mapsto> [on_open], ''message'' \<mapsto> [on_message], ''close'' \<mapsto> [on_close]]"
  have en: "enabled (Dashboard_mount None) (EvOpen 0)"
    by (simp add: Dashboard_mount_fields)
  note so = step_open[OF en]
  have h1: "client ?w = (constructor ''/ws/events'')\<lparr>ws := Some 0, listeners := ?L\<rparr>"
    by (simp add: so(1) Dashboard_mount_fields constructor_def)
  have h2: "timers ?w = []" by (simp add: so(3) Dashboard_mount_fields)
  have h3: "enabled ?w (EvClose 0)" by (simp add: so(2) Dashboard_mount_fields)
  have h4: "close_listeners_return ?w"
    by (simp add: close_listeners_return_def so(1) Dashboard_mount_fields on_close_def)
  have h5: "(5::nat) \<le> 5" by simp
  from C1_reconnect_cap[OF h1 h2 h3 h4 h5, of ?P JUndefined] obtain w' where
    r: "run_failing ?P JUndefined 5 (step ?P ?w (EvClose 0)) = Some w'"
       "length (sockets w') = length (sockets ?w) + maxReconnectAttempts (client ?w)"
       "drop (length (sockets ?w)) (sockets w') =
          replicate 5 \<lparr>url = WS_BASE_URL (VITE_WS_URL ?w) @ ''/ws/events'', readyState = CLOSED, sent = []\<rparr>"
       "reconnectAttempts (client w') = 5" "timers w' = []" "last (console w') = ErrorMaxAttempts"
       "\<forall>cb cbs. ?L ''close'' = Some (cb # cbs) \<longrightarrow> last (invoked w') = ''close''"
    by blast
  have a: "length (sockets w') = 6"
    using r(2) by (simp add: so(1) so(2) Dashboard_mount_fields constructor_def)
  have b: "drop 1 (sockets w') =
        replicate 5 \<lparr>url = ''ws://localhost:8000/ws/events'', readyState = CLOSED, sent = []\<rparr>"
    using r(3) by (simp add: so(2) so(4) Dashboard_mount_fields WS_BASE_URL_def)
  have c: "last (invoked w') = ''close''"
    using r(7) by simp
  from dashboard_failing_run_eval r(1) have d: "\<not> wsConnected (user w')"
    by (auto simp only: map_option_eq_Some prod.inject option.inject Dashboard.simps)
  have o: "wsConnected (user ?w)"
    unfolding step_def fire.simps using en by (simp add: onopen_def Let_def emit_def
        Dashboard_mount_fields constructor_def on_open_def)
  from o r(1) a b r(4,5,6) c d show ?thesis by blast
qed


section \<open>The counter after a successful open\<close>

text \<open>
  The Dashboard's world after its first connection failed and the first retry timer
  fired: the counter is 1 and the second socket is connecting.
\<close>

lemma dashboard_retrying_fields:
  "client (step P (step P (Dashboard_mount None) (EvClose 0)) (EvTimeout 0)) =
     (constructor ''/ws/events'')\<lparr>ws := Some 1,
        listeners := [''open'' \<mapsto> [on_open], ''message'' \<mapsto> [on_message], ''close'' \<mapsto> [on_close]],
        reconnectAttempts := 1\<rparr>"
  "timers (step P (step P (Dashboard_mount None) (EvClose 0)) (EvTimeout 0)) = []"
  "map readyState (sockets (step P (step P (Dashboard_mount None) (EvClose 0)) (EvTimeout 0))) = [CLOSED, CONNECTING]"
proof -
  have c: "step P (Dashboard_mount None) (EvClose 0) =
      attemptReconnect (state_of (emit ''close'' JUndefined
        (print (LogClosed ''/ws/events'') (set_readyState 0 CLOSED (Dashboard_mount None)))))"
    using onclose_returns[of "set_readyState 0 CLOSED (Dashboard_mount None)"]
    by (simp add: step_def Dashboard_mount_fields close_listeners_return_def on_close_def constructor_def)
  define x where "x = state_of (emit ''close'' JUndefined
        (print (LogClosed ''/ws/events'') (set_readyState 0 CLOSED (Dashboard_mount None))))"
  have x: "client x = client (Dashboard_mount None)" "timers x = []"
    "sockets x = [\<lparr>url = WS_BASE_URL None @ ''/ws/events'', readyState = CLOSED, sent = []\<rparr>]"
    by (simp_all add: x_def Dashboard_mount_fields)
  have b: "reconnectAttempts (client x) < maxReconnectAttempts (client x)"
    by (simp add: x(1) Dashboard_mount_fields constructor_def)
  note eq = attemptReconnect_below[OF b]
  have s: "step P (Dashboard_mount None) (EvClose 0) = attemptReconnect x"
    by (simp add: c x_def)
  show "client (step P (step P (Dashboard_mount None) (EvClose 0)) (EvTimeout 0)) =
     (constructor ''/ws/events'')\<lparr>ws := Some 1,
        listeners := [''open'' \<mapsto> [on_open], ''message'' \<mapsto> [on_message], ''close'' \<mapsto> [on_close]],
        reconnectAttempts := 1\<rparr>"
    unfolding s by (simp add: eq step_def x Dashboard_mount_fields constructor_def)
  show "timers (step P (step P (Dashboard_mount None) (EvClose 0)) (EvTimeout 0)) = []"
    unfolding s by (simp add: eq step_def x)
  show "map readyState (sockets (step P (step P (Dashboard_mount None) (EvClose 0)) (EvTimeout 0))) = [CLOSED, CONNECTING]"
    unfolding s by (simp add: eq step_def x)
qed

text \<open>
  C10: whenever a socket opens, \<open>onopen\<close> puts the counter back to 0, whatever it was and
  whatever the \<open>open\<close> listeners do. If that connection is lost later and every reconnect
  attempt fails, the client again makes the full five attempts before it gives up.
\<close>

theorem C10_open_resets_counter:
  assumes "enabled w (EvOpen i)"
  shows "reconnectAttempts (client (step P w (EvOpen i))) = 0 \<and>
     (client w = (constructor ep)\<lparr>ws := s, listeners := L, reconnectAttempts := k\<rparr> \<and>
      timers w = [] \<and> close_listeners_return w \<and> 5 \<le> fuel \<longrightarrow>
      (\<exists>w'. run_failing P err fuel (step P (step P w (EvOpen i)) (EvClose i)) = Some w' \<and>
         length (sockets w') = length (sockets w) + 5 \<and>
         drop (length (sockets w)) (sockets w') =
           replicate 5 \<lparr>url = WS_BASE_URL (VITE_WS_URL w) @ ep, readyState = CLOSED, sent = []\<rparr> \<and>
         reconnectAttempts (client w') = 5 \<and>
         timers w' = [] \<and>
         last (console w') = ErrorMaxAttempts))"
proof (intro conjI impI)
  note so = step_open[OF assms, of P]
  show "reconnectAttempts (client (step P w (EvOpen i))) = 0"
    by (simp add: so(1))
  assume h: "client w = (constructor ep)\<lparr>ws := s, listeners := L, reconnectAttempts := k\<rparr> \<and>
      timers w = [] \<and> close_listeners_return w \<and> 5 \<le> fuel"
  let ?w1 = "step P w (EvOpen i)"
  from assms have i: "i < length (sockets w)" by simp
  have en: "enabled ?w1 (EvClose i)"
    using i by (simp add: so(2))
  from h have hc: "client w = (constructor ep)\<lparr>ws := s, listeners := L, reconnectAttempts := k\<rparr>"
    and ht: "timers w = []" and hl: "close_listeners_return w" and hf: "5 \<le> fuel"
    by simp_all
  have cl: "close_listeners_return ?w1"
    using hl by (simp add: close_listeners_return_def so(1))
  have t: "timers ?w1 = []" using ht by (simp add: so(3))
  have a: "reconnectAttempts (client ?w1) = 0" by (simp add: so(1))
  have m: "maxReconnectAttempts (client ?w1) = Suc 4"
    by (simp add: so(1) hc constructor_def)
  have e: "endpoint (client ?w1) = ep"
    by (simp add: so(1) hc constructor_def)
  have f: "Suc 4 \<le> fuel" using hf by simp
  from close_then_failing[OF en cl t a m f, of P err] obtain w' where
    r: "run_failing P err fuel (step P ?w1 (EvClose i)) = Some w'"
       "timers w' = []"
       "sockets w' = (sockets ?w1)[i := (sockets ?w1 ! i)\<lparr>readyState := CLOSED\<rparr>] @ replicate (Suc 4)
          \<lparr>url = WS_BASE_URL (VITE_WS_URL ?w1) @ endpoint (client ?w1), readyState = CLOSED, sent = []\<rparr>"
       "client w' = (client ?w1)\<lparr>ws := Some (length (sockets ?w1) + 4), reconnectAttempts := Suc 4\<rparr>"
       "last (console w') = ErrorMaxAttempts"
    by blast
  have len: "length (sockets w') = length (sockets w) + 5"
    by (simp add: r(3) so(2))
  have dr: "drop (length (sockets w)) (sockets w') =
        replicate 5 \<lparr>url = WS_BASE_URL (VITE_WS_URL w) @ ep, readyState = CLOSED, sent = []\<rparr>"
    by (simp add: r(3) so(2) so(4) e numeral_eq_Suc)
  have cnt: "reconnectAttempts (client w') = 5"
    by (simp add: r(4))
  from r(1) len dr cnt r(2) r(5)
  show "\<exists>w'. run_failing P err fuel (step P (step P w (EvOpen i)) (EvClose i)) = Some w' \<and>
         length (sockets w') = length (sockets w) + 5 \<and>
         drop (length (sockets w)) (sockets w') =
           replicate 5 \<lparr>url = WS_BASE_URL (VITE_WS_URL w) @ ep, readyState = CLOSED, sent = []\<rparr> \<and>
         reconnectAttempts (client w') = 5 \<and>
         timers w' = [] \<and>
         last (console w') = ErrorMaxAttempts"
    by blast
qed


text \<open>C10 on the Dashboard's client while its first retry is connecting (counter 1).\<close>

theorem C10_witness:
  "reconnectAttempts (client (step (\<lambda>s. None) (step (\<lambda>s. None) (Dashboard_mount None) (EvClose 0)) (EvTimeout 0))) = 1 \<and>
   reconnectAttempts (client (step (\<lambda>s. None)
      (step (\<lambda>s. None) (step (\<lambda>s. None) (Dashboard_mount None) (EvClose 0)) (EvTimeout 0))
      (EvOpen 1))) = 0 \<and>
   (\<exists>w'. run_failing (\<lambda>s. None) JUndefined 5
       (step (\<lambda>s. None)
         (step (\<lambda>s. None)
           (step (\<lambda>s. None) (step (\<lambda>s. None) (Dashboard_mount None) (EvClose 0)) (EvTimeout 0))
           (EvOpen 1))
         (EvClose 1)) = Some w' \<and>
      length (sockets w') = 7 \<and> reconnectAttempts (client w') = 5 \<and> timers w' = [])"
proof -
  define W where "W = step (\<lambda>s. None) (step (\<lambda>s. None) (Dashboard_mount None) (EvClose 0)) (EvTimeout 0)"
  let ?L = "[''open'' \<mapsto> [on_open], ''message'' \<mapsto> [on_message], ''close'' \<mapsto> [on_close]]"
  have hc: "client W = (constructor ''/ws/events'')\<lparr>ws := Some 1, listeners := ?L, reconnectAttempts := 1\<rparr>"
    and ht: "timers W = []"
    and hs: "map readyState (sockets W) = [CLOSED, CONNECTING]"
    unfolding W_def by (rule dashboard_retrying_fields)+
  from hs have len: "length (sockets W) = 2"
    by (metis length_map length_Cons list.size(3) numeral_2_eq_2)
  have "readyState (sockets W ! 1) = map readyState (sockets W) ! 1"
    using len by simp
  then have en: "enabled W (EvOpen 1)"
    using len by (simp add: hs)
  have hl: "close_listeners_return W"
    by (simp add: close_listeners_return_def hc on_close_def)
  from C10_open_resets_counter[OF en, where P = "\<lambda>s. None" and ep = "''/ws/events''" and s = "Some 1"
      and L = ?L and k = 1 and fuel = 5 and err = JUndefined] hc ht hl
  have z: "reconnectAttempts (client (step (\<lambda>s. None) W (EvOpen 1))) = 0"
    and "\<exists>w'. run_failing (\<lambda>s. None) JUndefined 5
           (step (\<lambda>s. None) (step (\<lambda>s. None) W (EvOpen 1)) (EvClose 1)) = Some w' \<and>
         length (sockets w') = length (sockets W) + 5 \<and>
         drop (length (sockets W)) (sockets w') =
           replicate 5 \<lparr>url = WS_BASE_URL (VITE_WS_URL W) @ ''/ws/events'', readyState = CLOSED, sent = []\<rparr> \<and>
         reconnectAttempts (client w') = 5 \<and>
         timers w' = [] \<and>
         last (console w') = ErrorMaxAttempts"
    by simp_all
  then obtain w' where
    r: "run_failing (\<lambda>s. None) JUndefined 5
           (step (\<lambda>s. None) (step (\<lambda>s. None) W (EvOpen 1)) (EvClose 1)) = Some w'"
       "length (sockets w') = length (sockets W) + 5"
       "reconnectAttempts (client w') = 5" "timers w' = []"
    by blast
  have one: "reconnectAttempts (client W) = 1" by (simp add: hc)
  have seven: "length (sockets w') = 7" using r(2) len by simp
  from one z r(1) seven r(3,4) show ?thesis unfolding W_def by blast
qed

section \<open>The delay before an attempt\<close>

text \<open>
  C2: the n-th reconnect attempt in a row is the call of \<open>attemptReconnect\<close> that finds
  the counter at \<open>n - 1\<close>. For \<open>1 \<le> n \<le> 5\<close> it sets the counter to \<open>n\<close> and a timer
  of \<open>reconnectDelay * n\<close>, which is \<open>1000 * n\<close> milliseconds, and logs the same delay.
\<close>

theorem C2_linear_delay:
  assumes "client w = (constructor ep)\<lparr>ws := s, listeners := L, reconnectAttempts := n - 1\<rparr>"
    and "1 \<le> n" and "n \<le> 5"
  shows "timers (attemptReconnect w) = timers w @ [reconnectDelay (client w) * n] \<and>
         reconnectDelay (client w) * n = 1000 * n \<and>
         reconnectAttempts (client (attemptReconnect w)) = n \<and>
         console (attemptReconnect w) = console w @ [LogReconnecting (1000 * n) n 5]"
proof -
  from assms(2) obtain m where m: "n = Suc m" by (cases n) auto
  have c: "reconnectAttempts (client w) = m" "reconnectDelay (client w) = 1000"
    "maxReconnectAttempts (client w) = 5"
    by (simp_all add: assms(1) m constructor_def)
  have b: "reconnectAttempts (client w) < maxReconnectAttempts (client w)"
    using assms(3) by (simp add: c m)
  show ?thesis
    by (simp add: attemptReconnect_below[OF b] c m)
qed

theorem C2_witness:
  "timers (attemptReconnect
      (new_world None ((constructor ''/ws/events'')\<lparr>ws := Some 2, listeners := Map.empty,
          reconnectAttempts := 3 - 1\<rparr>) ())) = [3000] \<and>
   reconnectAttempts (client (attemptReconnect
      (new_world None ((constructor ''/ws/events'')\<lparr>ws := Some 2, listeners := Map.empty,
          reconnectAttempts := 3 - 1\<rparr>) ()))) = 3"
  using C2_linear_delay[where w = "new_world None ((constructor ''/ws/events'')\<lparr>ws := Some 2,
          listeners := Map.empty, reconnectAttempts := 3 - 1\<rparr>) ()" and ep = "''/ws/events''"
          and s = "Some 2" and L = Map.empty and n = 3]
  by (simp add: new_world_def constructor_def)

section \<open>Frames that do not parse\<close>

text \<open>
  C4: a frame whose payload \<open>JSON.parse\<close> rejects changes nothing but the console: no
  listener is called, no socket changes state (the one it arrived on stays \<open>OPEN\<close>), no
  timer is set, and no exception leaves the handler.
\<close>

theorem C4_malformed_frame:
  assumes "P payload = None" and "enabled w (EvMessage i payload)"
  shows "step P w (EvMessage i payload) = print ErrorParse w \<and>
         \<not> threw (onmessage P payload w) \<and>
         invoked (step P w (EvMessage i payload)) = invoked w \<and>
         user (step P w (EvMessage i payload)) = user w \<and>
         sockets (step P w (EvMessage i payload)) = sockets w \<and>
         readyState (sockets (step P w (EvMessage i payload)) ! i) = OPEN \<and>
         timers (step P w (EvMessage i payload)) = timers w \<and>
         client (step P w (EvMessage i payload)) = client w"
proof -
  have "onmessage P payload w = Normal (print ErrorParse w)"
    using assms(1) by (simp add: onmessage_def)
  then have "step P w (EvMessage i payload) = print ErrorParse w" "\<not> threw (onmessage P payload w)"
    using assms(2) by (simp_all add: step_def)
  then show ?thesis using assms(2) by simp
qed


section \<open>What no event changes\<close>

lemma attemptReconnect_frame [simp]:
  "sockets (attemptReconnect w) = sockets w"
  "VITE_WS_URL (attemptReconnect w) = VITE_WS_URL w"
  "endpoint (client (attemptReconnect w)) = endpoint (client w)"
  "listeners (client (attemptReconnect w)) = listeners (client w)"
  "ws (client (attemptReconnect w)) = ws (client w)"
  "maxReconnectAttempts (client (attemptReconnect w)) = maxReconnectAttempts (client w)"
  "reconnectDelay (client (attemptReconnect w)) = reconnectDelay (client w)"
  by (cases "reconnectAttempts (client w) < maxReconnectAttempts (client w)";
      simp add: attemptReconnect_below attemptReconnect_at_cap)+

lemma emit_user_frame [simp]:
  "listeners (client w) ev = None \<Longrightarrow> emit ev d w = Normal w"
  by (simp add: emit_def)

lemma onopen_frame [simp]:
  "client (state_of (onopen w)) = (client w)\<lparr>reconnectAttempts := 0\<rparr>"
  "sockets (state_of (onopen w)) = sockets w"
  "timers (state_of (onopen w)) = timers w"
  "VITE_WS_URL (state_of (onopen w)) = VITE_WS_URL w"
  by (simp_all add: onopen_def Let_def)

lemma onerror_frame [simp]:
  "client (state_of (onerror err w)) = client w"
  "sockets (state_of (onerror err w)) = sockets w"
  "timers (state_of (onerror err w)) = timers w"
  "VITE_WS_URL (state_of (onerror err w)) = VITE_WS_URL w"
  by (simp_all add: onerror_def)

lemma onmessage_state:
  "state_of (onmessage P p w) =
     (case P p of None \<Rightarrow> print ErrorParse w
      | Some d \<Rightarrow> if threw (emit ''message'' d w)
                  then print ErrorParse (state_of (emit ''message'' d w))
                  else state_of (emit ''message'' d w))"
  by (cases "P p"; simp add: onmessage_def; cases "emit ''message'' (the (P p)) w"; simp)

lemma onmessage_frame [simp]:
  "client (state_of (onmessage P p w)) = client w"
  "sockets (state_of (onmessage P p w)) = sockets w"
  "timers (state_of (onmessage P p w)) = timers w"
  "VITE_WS_URL (state_of (onmessage P p w)) = VITE_WS_URL w"
  by (simp_all add: onmessage_state split: option.splits)

lemma onclose_state:
  "state_of (onclose w) =
     (if threw (emit ''close'' JUndefined (print (LogClosed (endpoint (client w))) w))
      then state_of (emit ''close'' JUndefined (print (LogClosed (endpoint (client w))) w))
      else attemptReconnect (state_of (emit ''close'' JUndefined (print (LogClosed (endpoint (client w))) w))))"
  by (cases "emit ''close'' JUndefined (print (LogClosed (endpoint (client w))) w)")
     (simp_all add: onclose_def)

lemma onclose_frame [simp]:
  "sockets (state_of (onclose w)) = sockets w"
  "VITE_WS_URL (state_of (onclose w)) = VITE_WS_URL w"
  "endpoint (client (state_of (onclose w))) = endpoint (client w)"
  "listeners (client (state_of (onclose w))) = listeners (client w)"
  "ws (client (state_of (onclose w))) = ws (client w)"
  "maxReconnectAttempts (client (state_of (onclose w))) = maxReconnectAttempts (client w)"
  "reconnectDelay (client (state_of (onclose w))) = reconnectDelay (client w)"
  by (simp_all add: onclose_state)

lemma map_update_same:
  "f (xs ! i) = v \<Longrightarrow> (map f xs)[i := v] = map f xs"
proof (cases "i < length xs")
  case True
  then show "f (xs ! i) = v \<Longrightarrow> ?thesis" by (simp add: list_update_same_conv)
next
  case False
  then have "length (map f xs) \<le> i" by simp
  then show ?thesis by (rule list_update_beyond)
qed

lemma send_frame [simp]:
  "client (state_of (send d w)) = client w"
  "timers (state_of (send d w)) = timers w"
  "VITE_WS_URL (state_of (send d w)) = VITE_WS_URL w"
  "user (state_of (send d w)) = user w"
  "invoked (state_of (send d w)) = invoked w"
  "map url (sockets (state_of (send d w))) = map url (sockets w)"
  "map readyState (sockets (state_of (send d w))) = map readyState (sockets w)"
  by (auto simp: send_def map_update map_update_same split: option.splits sum.splits)

lemma disconnect_frame [simp]:
  "client (disconnect w) = (client w)\<lparr>ws := None\<rparr>"
  "timers (disconnect w) = timers w"
  "VITE_WS_URL (disconnect w) = VITE_WS_URL w"
  "user (disconnect w) = user w"
  "invoked (disconnect w) = invoked w"
  "map url (sockets (disconnect w)) = map url (sockets w)"
  by (auto simp: disconnect_def ws_close_def map_update map_update_same split: option.splits)

text \<open>
  No event touches the endpoint, the listeners, the cap, the base delay or the base url,
  and the url of a socket never changes: sockets are only added, by \<open>connect\<close>.
\<close>

lemma step_fixed:
  "endpoint (client (step P w e)) = endpoint (client w)"
  "listeners (client (step P w e)) = listeners (client w)"
  "maxReconnectAttempts (client (step P w e)) = maxReconnectAttempts (client w)"
  "reconnectDelay (client (step P w e)) = reconnectDelay (client w)"
  "VITE_WS_URL (step P w e) = VITE_WS_URL w"
  by (cases e; simp add: step_def)+

lemma step_urls:
  "map url (sockets (step P w e)) = map url (sockets w) \<or>
   map url (sockets (step P w e)) =
     map url (sockets w) @ [WS_BASE_URL (VITE_WS_URL w) @ endpoint (client w)]"
  by (cases e) (simp_all add: step_def map_update map_update_same)


lemma run_Cons: "run P (e # es) w = run P es (step P w e)"
  by (simp add: run_def)

lemma run_fixed:
  "endpoint (client (run P es w)) = endpoint (client w) \<and>
   listeners (client (run P es w)) = listeners (client w) \<and>
   maxReconnectAttempts (client (run P es w)) = maxReconnectAttempts (client w) \<and>
   reconnectDelay (client (run P es w)) = reconnectDelay (client w) \<and>
   VITE_WS_URL (run P es w) = VITE_WS_URL w"
proof (induction es arbitrary: w)
  case Nil
  show ?case by (simp add: run_def)
next
  case (Cons e es)
  show ?case by (simp add: run_Cons Cons.IH step_fixed)
qed

lemma run_urls:
  "\<exists>n. map url (sockets (run P es w)) =
         map url (sockets w) @ replicate n (WS_BASE_URL (VITE_WS_URL w) @ endpoint (client w))"
proof (induction es arbitrary: w)
  case Nil
  have "map url (sockets (run P [] w)) =
         map url (sockets w) @ replicate 0 (WS_BASE_URL (VITE_WS_URL w) @ endpoint (client w))"
    by (simp add: run_def)
  then show ?case by blast
next
  case (Cons e es)
  let ?u = "WS_BASE_URL (VITE_WS_URL w) @ endpoint (client w)"
  from Cons.IH[of "step P w e"] obtain n where
    n: "map url (sockets (run P es (step P w e))) = map url (sockets (step P w e)) @ replicate n ?u"
    by (auto simp: step_fixed)
  from step_urls[of P w e] show ?case
  proof
    assume "map url (sockets (step P w e)) = map url (sockets w)"
    with n have "map url (sockets (run P (e # es) w)) = map url (sockets w) @ replicate n ?u"
      by (simp add: run_Cons)
    then show ?thesis by blast
  next
    assume "map url (sockets (step P w e)) = map url (sockets w) @ [?u]"
    with n have "map url (sockets (run P (e # es) w)) = map url (sockets w) @ replicate (Suc n) ?u"
      by (simp add: run_Cons)
    then show ?thesis by blast
  qed
qed

text \<open>
  C6: the endpoint is the constructor's argument and nothing changes it: after any
  sequence of browser events, timers and calls of \<open>connect\<close>, \<open>send\<close> and \<open>disconnect\<close>
  the client still has it, and every socket the client has opened, by the first
  \<open>connect\<close> or by a reconnect, was opened for the same url, base url followed by that
  endpoint.
\<close>

theorem C6_same_endpoint:
  assumes "client w = (constructor ep)\<lparr>listeners := L\<rparr>" and "sockets w = []"
  shows "endpoint (client (run P es w)) = ep \<and>
         map url (sockets (run P es w)) =
           replicate (length (sockets (run P es w))) (WS_BASE_URL (VITE_WS_URL w) @ ep)"
proof -
  have e: "endpoint (client w) = ep" by (simp add: assms(1) constructor_def)
  from run_urls[of P es w] obtain n where
    n: "map url (sockets (run P es w)) = replicate n (WS_BASE_URL (VITE_WS_URL w) @ ep)"
    by (auto simp: assms(2) e)
  then have "length (map url (sockets (run P es w))) = n" by simp
  then have "length (sockets (run P es w)) = n" by simp
  with n show ?thesis by (simp add: run_fixed e)
qed

lemma sensor_run_length:
  "length (sockets (run (\<lambda>s. None) [CallConnect, EvClose 0, EvTimeout 0, EvOpen 1]
      (new_world (Some ''wss://city.example'') (createSensorWebSocket ''s1'') ()))) = 2"
  by code_simp

text \<open>
  C6 on a sensor client: its first connection fails, the retry succeeds; both sockets
  were opened for the sensor's url.
\<close>

theorem C6_witness:
  "map url (sockets (run (\<lambda>s. None) [CallConnect, EvClose 0, EvTimeout 0, EvOpen 1]
      (new_world (Some ''wss://city.example'') (createSensorWebSocket ''s1'') ()))) =
     [''wss://city.example/ws/sensors/s1'', ''wss://city.example/ws/sensors/s1'']"
proof -
  let ?w = "new_world (Some ''wss://city.example'') (createSensorWebSocket ''s1'') () :: unit world"
  have h1: "client ?w = (constructor ''/ws/sensors/s1'')\<lparr>listeners := Map.empty\<rparr>"
    by (simp add: new_world_def createSensorWebSocket_def constructor_def)
  have h2: "sockets ?w = []" by (simp add: new_world_def)
  have u: "WS_BASE_URL (VITE_WS_URL ?w) @ ''/ws/sensors/s1'' = ''wss://city.example/ws/sensors/s1''"
    by (simp add: new_world_def WS_BASE_URL_def)
  from C6_same_endpoint[OF h1 h2, of "\<lambda>s. None" "[CallConnect, EvClose 0, EvTimeout 0, EvOpen 1]"]
  show ?thesis
    unfolding sensor_run_length u by (simp add: numeral_2_eq_2)
qed


text \<open>
  \<open>this.ws\<close> never dangles: \<open>connect\<close> is the only assignment of a socket to it, and
  the socket it assigns has just been put into the store.
\<close>

lemma step_length_sockets:
  "length (sockets w) \<le> length (sockets (step P w e))"
proof -
  from step_urls[of P w e] show ?thesis
  proof
    assume "map url (sockets (step P w e)) = map url (sockets w)"
    then have "length (map url (sockets (step P w e))) = length (map url (sockets w))"
      by (rule arg_cong)
    then show ?thesis by simp
  next
    assume "map url (sockets (step P w e)) =
      map url (sockets w) @ [WS_BASE_URL (VITE_WS_URL w) @ endpoint (client w)]"
    then have "length (map url (sockets (step P w e))) =
      length (map url (sockets w) @ [WS_BASE_URL (VITE_WS_URL w) @ endpoint (client w)])"
      by (rule arg_cong)
    then show ?thesis by simp
  qed
qed

lemma step_ws:
  "ws (client (step P w e)) = ws (client w) \<or>
   ws (client (step P w e)) = None \<or>
   (ws (client (step P w e)) = Some (length (sockets w)) \<and>
    length (sockets (step P w e)) = Suc (length (sockets w)))"
  by (cases e) (simp_all add: step_def)

lemma step_ws_in_store:
  assumes "\<forall>i. ws (client w) = Some i \<longrightarrow> i < length (sockets w)"
  shows "\<forall>i. ws (client (step P w e)) = Some i \<longrightarrow> i < length (sockets (step P w e))"
  using assms step_ws[of P w e] step_length_sockets[of w P e] by (auto intro: less_le_trans)

lemma run_ws_in_store:
  "\<forall>i. ws (client w) = Some i \<longrightarrow> i < length (sockets w) \<Longrightarrow>
   \<forall>i. ws (client (run P es w)) = Some i \<longrightarrow> i < length (sockets (run P es w))"
proof (induction es arbitrary: w)
  case Nil
  then show ?case by (simp add: run_def)
next
  case (Cons e es)
  show ?case unfolding run_Cons
    by (rule Cons.IH[OF step_ws_in_store[OF Cons.prems]])
qed


section \<open>The Dashboard's listeners at work\<close>

lemma emit_dashboard:
  assumes "dashboard_listening w"
  shows "emit ''open'' d w =
           Normal (w\<lparr>invoked := invoked w @ [''open''], user := (user w)\<lparr>wsConnected := True\<rparr>\<rparr>)"
    and "emit ''close'' d w =
           Normal (w\<lparr>invoked := invoked w @ [''close''], user := (user w)\<lparr>wsConnected := False\<rparr>\<rparr>)"
    and "emit ''error'' d w = Normal w"
    and "user (state_of (emit ''message'' d w)) = state_of (on_message d (user w))"
    and "invoked (state_of (emit ''message'' d w)) = invoked w @ [''message'']"
  using assms
  by (simp_all add: dashboard_listening_def emit_def on_open_def on_close_def
      split: completion.splits)

lemma dashboard_listening_client:
  "listeners (client w') = listeners (client w) \<Longrightarrow> dashboard_listening w \<Longrightarrow> dashboard_listening w'"
  by (simp add: dashboard_listening_def)

lemma dashboard_listening_step:
  "dashboard_listening w \<Longrightarrow> dashboard_listening (step P w e)"
  by (rule dashboard_listening_client[OF step_fixed(2)])

lemma dashboard_listening_run:
  "dashboard_listening w \<Longrightarrow> dashboard_listening (run P es w)"
  using run_fixed[of P es w] by (simp add: dashboard_listening_def)

lemma on_message_wsConnected:
  "wsConnected (state_of (on_message d st)) = wsConnected st"
  by (simp add: on_message_def split: sum.splits)

text \<open>What each event does to the Dashboard's state.\<close>

lemma dashboard_step_user:
  assumes "dashboard_listening w" and "enabled w e"
  shows "user (step P w e) =
     (case e of
        EvOpen i \<Rightarrow> (user w)\<lparr>wsConnected := True\<rparr>
      | EvClose i \<Rightarrow> (user w)\<lparr>wsConnected := False\<rparr>
      | EvMessage i p \<Rightarrow>
          (case P p of None \<Rightarrow> user w | Some d \<Rightarrow> state_of (on_message d (user w)))
      | _ \<Rightarrow> user w)"
proof (cases e)
  case (EvOpen i)
  have "dashboard_listening (print (LogConnected (endpoint (client w))) (set_readyState i OPEN w)
          \<lparr>client := (client w)\<lparr>reconnectAttempts := 0\<rparr>\<rparr>)"
    using assms(1) by (simp add: dashboard_listening_def)
  from emit_dashboard(1)[OF this] show ?thesis
    using assms(2) EvOpen by (simp add: step_def onopen_def Let_def)
next
  case (EvMessage i p)
  show ?thesis
  proof (cases "P p")
    case None
    then show ?thesis using assms(2) EvMessage by (simp add: step_def onmessage_state)
  next
    case (Some d)
    then show ?thesis using assms EvMessage
      by (simp add: step_def onmessage_state emit_dashboard)
  qed
next
  case (EvError i err)
  have "dashboard_listening (print ErrorWebSocket w)"
    using assms(1) by (simp add: dashboard_listening_def)
  from emit_dashboard(3)[OF this] show ?thesis
    using assms(2) EvError by (simp add: step_def onerror_def)
next
  case (EvClose i)
  have "dashboard_listening (print (LogClosed (endpoint (client w))) (set_readyState i CLOSED w))"
    using assms(1) by (simp add: dashboard_listening_def)
  from emit_dashboard(2)[OF this] show ?thesis
    using assms(2) EvClose by (simp add: step_def onclose_def attemptReconnect_user)
next
  case (EvTimeout k)
  then show ?thesis using assms(2) by (simp add: step_def)
next
  case CallConnect
  then show ?thesis by (simp add: step_def)
next
  case (CallSend d)
  then show ?thesis by (simp add: step_def)
next
  case CallDisconnect
  then show ?thesis by (simp add: step_def)
qed


lemma dashboard_open_world:
  "sockets (step P (Dashboard_mount env) (EvOpen 0)) =
     [\<lparr>url = WS_BASE_URL env @ ''/ws/events'', readyState = OPEN, sent = []\<rparr>]"
  "user (step P (Dashboard_mount env) (EvOpen 0)) = \<lparr>liveEvents = [], wsConnected = True\<rparr>"
  "invoked (step P (Dashboard_mount env) (EvOpen 0)) = [''open'']"
  "ws (client (step P (Dashboard_mount env) (EvOpen 0))) = Some 0"
  "dashboard_listening (step P (Dashboard_mount env) (EvOpen 0))"
proof -
  have en: "enabled (Dashboard_mount env) (EvOpen 0)"
    by (simp add: Dashboard_mount_fields)
  show "sockets (step P (Dashboard_mount env) (EvOpen 0)) =
     [\<lparr>url = WS_BASE_URL env @ ''/ws/events'', readyState = OPEN, sent = []\<rparr>]"
    by (simp add: step_open(2)[OF en] Dashboard_mount_fields)
  show "user (step P (Dashboard_mount env) (EvOpen 0)) = \<lparr>liveEvents = [], wsConnected = True\<rparr>"
    by (simp add: dashboard_step_user[OF Dashboard_mount_listening en] Dashboard_mount_fields
        Dashboard_init_def)
  have "dashboard_listening (print (LogConnected (endpoint (client (Dashboard_mount env))))
          (set_readyState 0 OPEN (Dashboard_mount env))
          \<lparr>client := (client (Dashboard_mount env))\<lparr>reconnectAttempts := 0\<rparr>\<rparr>)"
    using Dashboard_mount_listening[of env] by (simp add: dashboard_listening_def)
  from emit_dashboard(1)[OF this]
  show "invoked (step P (Dashboard_mount env) (EvOpen 0)) = [''open'']"
    using en by (simp add: step_def onopen_def Let_def Dashboard_mount_fields)
  show "ws (client (step P (Dashboard_mount env) (EvOpen 0))) = Some 0"
    by (simp add: step_open(1)[OF en] Dashboard_mount_fields)
  show "dashboard_listening (step P (Dashboard_mount env) (EvOpen 0))"
    by (rule dashboard_listening_step) (rule Dashboard_mount_listening)
qed

text \<open>C4 on the Dashboard's open socket, with a parser that accepts nothing but \<open>null\<close>.\<close>

theorem C4_witness:
  "invoked (step (\<lambda>s. if s = ''null'' then Some JNull else None)
      (step (\<lambda>s. if s = ''null'' then Some JNull else None) (Dashboard_mount None) (EvOpen 0))
      (EvMessage 0 ''{oops'')) = [''open''] \<and>
   readyState (sockets (step (\<lambda>s. if s = ''null'' then Some JNull else None)
      (step (\<lambda>s. if s = ''null'' then Some JNull else None) (Dashboard_mount None) (EvOpen 0))
      (EvMessage 0 ''{oops'')) ! 0) = OPEN \<and>
   user (step (\<lambda>s. if s = ''null'' then Some JNull else None)
      (step (\<lambda>s. if s = ''null'' then Some JNull else None) (Dashboard_mount None) (EvOpen 0))
      (EvMessage 0 ''{oops'')) = \<lparr>liveEvents = [], wsConnected = True\<rparr>"
proof -
  let ?P = "\<lambda>s. if s = ''null'' then Some JNull else None"
  let ?W = "step ?P (Dashboard_mount None) (EvOpen 0)"
  have h1: "?P ''{oops'' = None" by simp
  have h2: "enabled ?W (EvMessage 0 ''{oops'')"
    by (simp add: dashboard_open_world)
  from C4_malformed_frame[where P = ?P and payload = "''{oops''" and w = ?W and i = 0] h1 h2
  show ?thesis
    by (simp add: dashboard_open_world)
qed

lemma on_message_length:
  "length (liveEvents st) \<le> 100 \<Longrightarrow> length (liveEvents (state_of (on_message d st))) \<le> 100"
  by (auto simp: on_message_def split: sum.splits)

lemma dashboard_step_length:
  assumes "dashboard_listening w" and "length (liveEvents (user w)) \<le> 100"
  shows "length (liveEvents (user (step P w e))) \<le> 100"
proof (cases "enabled w e")
  case True
  show ?thesis
    using assms(2) on_message_length[OF assms(2)]
    by (simp add: dashboard_step_user[OF assms(1) True] split: event.splits option.splits)
next
  case False
  then show ?thesis using assms(2) by (simp add: step_def)
qed

lemma dashboard_run_length:
  "dashboard_listening w \<Longrightarrow> length (liveEvents (user w)) \<le> 100 \<Longrightarrow>
   length (liveEvents (user (run P es w))) \<le> 100"
proof (induction es arbitrary: w)
  case Nil
  then show ?case by (simp add: run_def)
next
  case (Cons e es)
  show ?case
    unfolding run_Cons
    by (rule Cons.IH[OF dashboard_listening_step[OF Cons.prems(1)]
          dashboard_step_length[OF Cons.prems]])
qed

lemma dashboard_message_user:
  assumes "dashboard_listening w" and "enabled w (EvMessage i p)" and "P p = Some d"
  shows "user (step P w (EvMessage i p)) = state_of (on_message d (user w))"
  by (simp add: dashboard_step_user[OF assms(1,2)] assms(3))

section \<open>The live events buffer\<close>

text \<open>
  C8: whatever happens after the Dashboard mounts, \<open>liveEvents\<close> never holds more than
  100 entries. A message whose \<open>data\<close> is truthy puts that record at the front and keeps
  the first 99 of the entries before it; when the list was full, that is all of them but
  the oldest, which stood last.
\<close>

theorem C8_live_events_buffer:
  "length (liveEvents (user (run P es (Dashboard_mount env)))) \<le> 100 \<and>
   (dashboard_listening w \<and> enabled w (EvMessage i p) \<and> P p = Some d \<and>
    get_data d = Inr v \<and> ToBoolean v \<longrightarrow>
      liveEvents (user (step P w (EvMessage i p))) = v # take 99 (liveEvents (user w)) \<and>
      (length (liveEvents (user w)) = 100 \<longrightarrow>
         liveEvents (user (step P w (EvMessage i p))) = v # butlast (liveEvents (user w))))"
proof (intro conjI impI)
  show "length (liveEvents (user (run P es (Dashboard_mount env)))) \<le> 100"
    by (rule dashboard_run_length[OF Dashboard_mount_listening])
       (simp add: Dashboard_mount_fields Dashboard_init_def)
next
  assume h: "dashboard_listening w \<and> enabled w (EvMessage i p) \<and> P p = Some d \<and>
    get_data d = Inr v \<and> ToBoolean v"
  then have u: "user (step P w (EvMessage i p)) = state_of (on_message d (user w))"
    by (simp add: dashboard_message_user)
  from h show a: "liveEvents (user (step P w (EvMessage i p))) = v # take 99 (liveEvents (user w))"
    by (simp add: u on_message_def)
  assume "length (liveEvents (user w)) = 100"
  then have "butlast (liveEvents (user w)) = take 99 (liveEvents (user w))"
    by (simp add: butlast_conv_take)
  with a show "liveEvents (user (step P w (EvMessage i p))) = v # butlast (liveEvents (user w))"
    by simp
qed

text \<open>C8 on a full buffer: the new record leads, the oldest of the hundred is gone.\<close>

theorem C8_witness:
  "length (liveEvents (user (run (\<lambda>s. if s = ''x'' then Some (envelope (JString ''new'')) else None)
      [EvOpen 0, EvMessage 0 ''x'', EvMessage 0 ''x''] (Dashboard_mount None)))) \<le> 100 \<and>
   liveEvents (user (step (\<lambda>s. if s = ''x'' then Some (envelope (JString ''new'')) else None)
      ((step (\<lambda>s. if s = ''x'' then Some (envelope (JString ''new'')) else None)
          (Dashboard_mount None) (EvOpen 0))
        \<lparr>user := \<lparr>liveEvents = replicate 99 (JString ''old'') @ [JString ''oldest''],
                    wsConnected = True\<rparr>\<rparr>)
      (EvMessage 0 ''x''))) = JString ''new'' # replicate 99 (JString ''old'')"
proof -
  let ?P = "\<lambda>s. if s = ''x'' then Some (envelope (JString ''new'')) else None"
  let ?W = "(step ?P (Dashboard_mount None) (EvOpen 0))
        \<lparr>user := \<lparr>liveEvents = replicate 99 (JString ''old'') @ [JString ''oldest''],
                    wsConnected = True\<rparr>\<rparr>"
  have h1: "dashboard_listening ?W"
    using dashboard_open_world(5)[of ?P None] by (simp add: dashboard_listening_def)
  have h2: "enabled ?W (EvMessage 0 ''x'')" by (simp add: dashboard_open_world)
  have h3: "?P ''x'' = Some (envelope (JString ''new''))" by simp
  have h4: "get_data (envelope (JString ''new'')) = Inr (JString ''new'')"
    by (simp add: envelope_def)
  have h5: "ToBoolean (JString ''new'')" by simp
  have h6: "length (liveEvents (user ?W)) = 100" by simp
  from C8_live_events_buffer[of ?P "[EvOpen 0, EvMessage 0 ''x'', EvMessage 0 ''x'']" None ?W 0 "''x''"
      "envelope (JString ''new'')" "JString ''new''"] h1 h2 h3 h4 h5 h6
  show ?thesis by simp
qed


section \<open>What the Dashboard shows of the connection\<close>

text \<open>
  C7: what the Dashboard shows of the connection is the one boolean \<open>wsConnected\<close>. An
  \<open>open\<close> event sets it, a \<open>close\<close> event clears it, and no other event or call touches
  it. Messages that are dropped leave the whole Dashboard state as it was: a \<open>send\<close>
  never changes it, and neither does a frame that does not parse; nothing counts them.
\<close>

theorem C7_binary_state:
  assumes "dashboard_listening w" and "enabled w e"
  shows "wsConnected (user (step P w e)) =
           (case e of EvOpen i \<Rightarrow> True | EvClose i \<Rightarrow> False | _ \<Rightarrow> wsConnected (user w)) \<and>
         user (state_of (send d w)) = user w \<and>
         (\<forall>i p. e = EvMessage i p \<and> P p = None \<longrightarrow> user (step P w e) = user w) \<and>
         ((\<forall>i p. e \<noteq> EvMessage i p) \<longrightarrow>
            liveEvents (user (step P w e)) = liveEvents (user w))"
proof -
  note u = dashboard_step_user[OF assms, of P]
  have a: "wsConnected (user (step P w e)) =
           (case e of EvOpen i \<Rightarrow> True | EvClose i \<Rightarrow> False | _ \<Rightarrow> wsConnected (user w))"
    using u by (cases e) (simp_all add: on_message_wsConnected split: option.splits)
  have b: "user (state_of (send d w)) = user w" by simp
  have c: "\<forall>i p. e = EvMessage i p \<and> P p = None \<longrightarrow> user (step P w e) = user w"
    using u by (cases e) simp_all
  have d: "(\<forall>i p. e \<noteq> EvMessage i p) \<longrightarrow>
            liveEvents (user (step P w e)) = liveEvents (user w)"
    using u by (cases e) simp_all
  from a b c d show ?thesis by blast
qed

text \<open>C7 on the Dashboard's client: live once the socket opens, disconnected once it closes.\<close>

theorem C7_witness:
  "\<not> wsConnected (user (Dashboard_mount None)) \<and>
   wsConnected (user (step (\<lambda>s. None) (Dashboard_mount None) (EvOpen 0))) \<and>
   \<not> wsConnected (user (step (\<lambda>s. None)
        (step (\<lambda>s. None) (Dashboard_mount None) (EvOpen 0)) (EvClose 0)))"
proof -
  let ?P = "\<lambda>s::string. None :: jsval option"
  let ?W = "step ?P (Dashboard_mount None) (EvOpen 0)"
  have a: "\<not> wsConnected (user (Dashboard_mount None))"
    by (simp add: Dashboard_mount_fields Dashboard_init_def)
  have e1: "enabled (Dashboard_mount None) (EvOpen 0)"
    by (simp add: Dashboard_mount_fields)
  have e2: "enabled ?W (EvClose 0)"
    by (simp add: dashboard_open_world)
  from C7_binary_state[OF Dashboard_mount_listening e1, where P = ?P]
  have b: "wsConnected (user ?W)" by simp
  from C7_binary_state[OF dashboard_open_world(5)[of ?P None] e2, where P = ?P]
  have c: "\<not> wsConnected (user (step ?P ?W (EvClose 0)))" by simp
  from a b c show ?thesis by blast
qed

section \<open>Which messages the Dashboard adds\<close>

text \<open>
  C5, as the spec states it, fails: the parsed message \<open>{"data": null}\<close> contains a data
  field and the Dashboard adds nothing for it.
\<close>

theorem C5_counterexample:
  "has_data_field (JObject [(''data'', JNull)]) \<and>
   on_message (JObject [(''data'', JNull)]) Dashboard_init = Normal Dashboard_init"
  by (simp add: on_message_def)

text \<open>
  C5, amended: an envelope \<open>{ "data": r }\<close> around one record \<open>r\<close> (an object) makes the
  Dashboard add exactly that record. In general the Dashboard adds the value of the
  \<open>data\<close> field of a parsed message when the message has such a field and its value is
  truthy; for every other message (no such field, or a value that is \<open>null\<close>, \<open>false\<close>,
  \<open>0\<close>, \<open>NaN\<close> or the empty string) its state stays as it was.
\<close>

theorem C5_truthy_data_added:
  assumes "dashboard_listening w" and "enabled w (EvMessage i p)" and "P p = Some d"
  shows "(get_data d = Inr v \<and> ToBoolean v \<longrightarrow>
            has_data_field d \<and>
            user (step P w (EvMessage i p)) =
              (user w)\<lparr>liveEvents := take 100 (v # liveEvents (user w))\<rparr>) \<and>
         (\<not> (has_data_field d \<and> (\<exists>x. get_data d = Inr x \<and> ToBoolean x)) \<longrightarrow>
            user (step P w (EvMessage i p)) = user w) \<and>
         (is_object r \<and> d = envelope r \<longrightarrow>
            user (step P w (EvMessage i p)) =
              (user w)\<lparr>liveEvents := take 100 (r # liveEvents (user w))\<rparr>)"
proof -
  have u: "user (step P w (EvMessage i p)) = state_of (on_message d (user w))"
    using assms by (rule dashboard_message_user)
  have f: "\<And>x. get_data d = Inr x \<Longrightarrow> ToBoolean x \<Longrightarrow> has_data_field d"
    by (cases d) (auto split: option.splits)
  have a: "get_data d = Inr v \<and> ToBoolean v \<longrightarrow>
            has_data_field d \<and>
            user (step P w (EvMessage i p)) =
              (user w)\<lparr>liveEvents := take 100 (v # liveEvents (user w))\<rparr>"
    using f by (simp add: u on_message_def)
  have b: "\<not> (has_data_field d \<and> (\<exists>x. get_data d = Inr x \<and> ToBoolean x)) \<longrightarrow>
            user (step P w (EvMessage i p)) = user w"
    using f by (auto simp: u on_message_def split: sum.splits)
  have c: "is_object r \<and> d = envelope r \<longrightarrow>
            user (step P w (EvMessage i p)) =
              (user w)\<lparr>liveEvents := take 100 (r # liveEvents (user w))\<rparr>"
    by (cases r) (simp_all add: u on_message_def envelope_def)
  from a b c show ?thesis by blast
qed


text \<open>
  C5 on the Dashboard's open socket: an envelope around one event adds that event, a
  message whose data is \<open>null\<close> adds nothing.
\<close>

theorem C5_witness:
  "user (step (\<lambda>s. if s = ''e'' then Some (envelope (JObject [(''id'', JString ''ev1'')]))
                   else if s = ''n'' then Some (JObject [(''data'', JNull)]) else None)
      (step (\<lambda>s. if s = ''e'' then Some (envelope (JObject [(''id'', JString ''ev1'')]))
                   else if s = ''n'' then Some (JObject [(''data'', JNull)]) else None)
         (Dashboard_mount None) (EvOpen 0))
      (EvMessage 0 ''e'')) =
     \<lparr>liveEvents = [JObject [(''id'', JString ''ev1'')]], wsConnected = True\<rparr> \<and>
   user (step (\<lambda>s. if s = ''e'' then Some (envelope (JObject [(''id'', JString ''ev1'')]))
                   else if s = ''n'' then Some (JObject [(''data'', JNull)]) else None)
      (step (\<lambda>s. if s = ''e'' then Some (envelope (JObject [(''id'', JString ''ev1'')]))
                   else if s = ''n'' then Some (JObject [(''data'', JNull)]) else None)
         (Dashboard_mount None) (EvOpen 0))
      (EvMessage 0 ''n'')) =
     \<lparr>liveEvents = [], wsConnected = True\<rparr>"
proof -
  let ?P = "\<lambda>s. if s = ''e'' then Some (envelope (JObject [(''id'', JString ''ev1'')]))
                   else if s = ''n'' then Some (JObject [(''data'', JNull)]) else None"
  let ?W = "step ?P (Dashboard_mount None) (EvOpen 0)"
  have l: "dashboard_listening ?W" by (rule dashboard_open_world(5))
  have e1: "enabled ?W (EvMessage 0 ''e'')" and e2: "enabled ?W (EvMessage 0 ''n'')"
    by (simp_all add: dashboard_open_world)
  have p1: "?P ''e'' = Some (envelope (JObject [(''id'', JString ''ev1'')]))"
    and p2: "?P ''n'' = Some (JObject [(''data'', JNull)])"
    by simp_all
  from C5_truthy_data_added[where P = ?P and w = ?W and i = 0 and p = "''e''"
      and d = "envelope (JObject [(''id'', JString ''ev1'')])"
      and r = "JObject [(''id'', JString ''ev1'')]"] l e1 p1
  have a: "user (step ?P ?W (EvMessage 0 ''e'')) =
     \<lparr>liveEvents = [JObject [(''id'', JString ''ev1'')]], wsConnected = True\<rparr>"
    by (simp add: dashboard_open_world)
  from C5_truthy_data_added[where P = ?P and w = ?W and i = 0 and p = "''n''"
      and d = "JObject [(''data'', JNull)]"] l e2 p2
  have b: "user (step ?P ?W (EvMessage 0 ''n'')) = \<lparr>liveEvents = [], wsConnected = True\<rparr>"
    by (simp add: dashboard_open_world)
  from a b show ?thesis by blast
qed

section \<open>send\<close>

text \<open>
  C9, as stated, fails: with the socket open, \<open>send(1n)\<close> throws the \<open>TypeError\<close> of
  \<open>JSON.stringify\<close> and transmits nothing.
\<close>

theorem C9_counterexample:
  "send (JBigInt 1) (set_readyState 0 OPEN (Dashboard_mount None)) =
     Throw TypeError (set_readyState 0 OPEN (Dashboard_mount None))"
  by (simp add: send_def Dashboard_mount_fields JSON_stringify_def)

text \<open>
  C9, amended: \<open>send\<close> never changes the client, and it throws in one case only, when the
  socket exists, is \<open>OPEN\<close> and the payload is one \<open>JSON.stringify\<close> rejects; then nothing
  is transmitted and nothing else changes. Without a socket, or with one that is not
  \<open>OPEN\<close>, the message is dropped: a warning is logged and that is all. With an open
  socket and a payload that serializes, the serialized payload is handed to the socket
  and nothing is logged.
\<close>

theorem C9_send:
  "threw (send d w) =
     (\<exists>i. ws (client w) = Some i \<and> readyState (sockets w ! i) = OPEN \<and> has_bigint d) \<and>
   client (state_of (send d w)) = client w \<and>
   (threw (send d w) \<longrightarrow> state_of (send d w) = w) \<and>
   (ws (client w) = None \<or> (\<exists>i. ws (client w) = Some i \<and> readyState (sockets w ! i) \<noteq> OPEN) \<longrightarrow>
      send d w = Normal (print (WarnNotReady d) w)) \<and>
   (ws (client w) = Some i \<and> i < length (sockets w) \<and> readyState (sockets w ! i) = OPEN \<and>
    \<not> has_bigint d \<longrightarrow>
      sent (sockets (state_of (send d w)) ! i) =
        sent (sockets w ! i) @ [if d = JUndefined then UndefinedText else JSONText d] \<and>
      console (state_of (send d w)) = console w)"
proof (cases "ws (client w)")
  case None
  then show ?thesis by (simp add: send_def)
next
  case (Some j)
  show ?thesis
  proof (cases "readyState (sockets w ! j) = OPEN")
    case False
    with Some show ?thesis by (auto simp: send_def)
  next
    case True
    show ?thesis
    proof (cases "has_bigint d")
      case True
      with Some \<open>readyState (sockets w ! j) = OPEN\<close> show ?thesis
        by (simp add: send_def JSON_stringify_def)
    next
      case False
      with Some \<open>readyState (sockets w ! j) = OPEN\<close> show ?thesis
        by (simp add: send_def JSON_stringify_def)
    qed
  qed
qed

text \<open>
  C9 on the Dashboard's client: a ping on the open socket is transmitted, the same ping
  while the socket is still connecting is dropped with a warning.
\<close>

theorem C9_witness:
  "sent (sockets (state_of (send (JObject [(''type'', JString ''ping'')])
      (step (\<lambda>s. None) (Dashboard_mount None) (EvOpen 0)))) ! 0) =
     [JSONText (JObject [(''type'', JString ''ping'')])] \<and>
   send (JObject [(''type'', JString ''ping'')]) (Dashboard_mount None) =
     Normal (print (WarnNotReady (JObject [(''type'', JString ''ping'')])) (Dashboard_mount None))"
proof -
  let ?P = "\<lambda>s::string. None :: jsval option"
  let ?W = "step ?P (Dashboard_mount None) (EvOpen 0)"
  let ?d = "JObject [(''type'', JString ''ping'')]"
  from C9_send[of ?d ?W 0]
  have a: "sent (sockets (state_of (send ?d ?W)) ! 0) = [JSONText ?d]"
    by (simp add: dashboard_open_world)
  from C9_send[of ?d "Dashboard_mount None" 0]
  have b: "send ?d (Dashboard_mount None) = Normal (print (WarnNotReady ?d) (Dashboard_mount None))"
    by (simp add: Dashboard_mount_fields)
  from a b show ?thesis by blast
qed

end
